theory Spec2Isabelle
  imports Main "HOL-Library.Sublist" "HOL-Library.Multiset"
begin

section \<open>The curses front-end of the nexSoft updater (nexsoft\_update\_tui.py)\<close>

text \<open>
  The front-end keeps one mutable \<open>UIState\<close> object, edits it from key events
  (\<open>TUI.handle_input\<close>), and runs the updater shell script in a worker thread
  (\<open>TUI.start_job\<close>). The embedding passes the state explicitly. Everything the
  code reads from outside (the key returned by \<open>getch\<close>, the wall clock, the
  result of \<open>detect_serial\<close>, the behaviour of the child process) is an argument.
  An exception that no handler of the source catches is the \<open>Inl\<close> of a sum.
\<close>

subsection \<open>Data\<close>

datatype py_error = IndexError | KeyError

text \<open>\<open>UIState.mode\<close> is one of the strings \<open>neutral\<close>, \<open>work\<close>, \<open>ok\<close>.\<close>

datatype ui_mode = Neutral | Work | Ok

text \<open>
  A \<open>subprocess.Popen\<close> handle: the command it was created with, and what
  \<open>poll()\<close> reports (\<open>None\<close> while the child runs, its exit code afterwards).
\<close>

record popen =
  cmd :: "string list"
  returncode :: "int option"

definition poll :: "popen \<Rightarrow> int option" where
  "poll p = returncode p"

record ui_state =
  theme_dark :: bool
  mode :: ui_mode
  message :: string
  env :: "string \<rightharpoonup> string"
  flags :: "string \<rightharpoonup> bool"
  field_index :: int
  edit_mode :: bool
  input_buffer :: string
  logs :: "string list"
  proc :: "popen option"

subsection \<open>Python helpers\<close>

text \<open>\<open>xs[i]\<close>: a negative index counts from the end, anything outside raises.\<close>

definition py_item :: "'a list \<Rightarrow> int \<Rightarrow> py_error + 'a" where
  "py_item xs i =
     (if 0 \<le> i \<and> i < int (length xs) then Inr (xs ! nat i)
      else if i < 0 \<and> - int (length xs) \<le> i then Inr (xs ! nat (int (length xs) + i))
      else Inl IndexError)"

text \<open>
  \<open>and_then\<close> runs the next statement unless the one before raised.
  \<open>flags[k]\<close> raises \<open>KeyError\<close> on a missing key.
\<close>

definition and_then :: "py_error + 'a \<Rightarrow> ('a \<Rightarrow> py_error + 'b) \<Rightarrow> py_error + 'b" where
  "and_then r k = (case r of Inl e \<Rightarrow> Inl e | Inr v \<Rightarrow> k v)"

definition flag_item :: "(string \<rightharpoonup> bool) \<Rightarrow> string \<Rightarrow> py_error + bool" where
  "flag_item f k = (case f k of None \<Rightarrow> Inl KeyError | Some v \<Rightarrow> Inr v)"

text \<open>\<open>flags[key] = not flags[key]\<close> (line 338).\<close>

definition toggle_flag :: "(string \<rightharpoonup> bool) \<Rightarrow> string \<Rightarrow> py_error + (string \<rightharpoonup> bool)" where
  "toggle_flag f key = and_then (flag_item f key) (\<lambda>v. Inr (f(key \<mapsto> \<not> v)))"

text \<open>\<open>xs[-n:]\<close>: the last \<open>n\<close> items, all of them when there are fewer.\<close>

definition py_last_n :: "nat \<Rightarrow> 'a list \<Rightarrow> 'a list" where
  "py_last_n n xs = drop (length xs - n) xs"

text \<open>\<open>d.get(k, default)\<close> on a dictionary of strings.\<close>

definition dict_get :: "(string \<rightharpoonup> string) \<Rightarrow> string \<Rightarrow> string \<Rightarrow> string" where
  "dict_get d k dflt = (case d k of None \<Rightarrow> dflt | Some v \<Rightarrow> v)"

text \<open>\<open>xs.index(x)\<close>; \<open>None\<close> stands for the \<open>ValueError\<close> the caller catches.\<close>

fun list_index :: "'a list \<Rightarrow> 'a \<Rightarrow> nat option" where
  "list_index [] x = None"
| "list_index (y # ys) x =
     (if y = x then Some 0
      else (case list_index ys x of None \<Rightarrow> None | Some i \<Rightarrow> Some (Suc i)))"

text \<open>\<open>s.rstrip('\n')\<close>: every trailing line feed goes.\<close>

definition rstrip_nl :: "string \<Rightarrow> string" where
  "rstrip_nl s = rev (dropWhile (\<lambda>c. c = CHR 0x0A) (rev s))"

text \<open>\<open>str(n)\<close> for an integer, as an f-string formats it.\<close>

definition digit_char :: "nat \<Rightarrow> char" where
  "digit_char d = char_of (48 + d)"

function str_nat :: "nat \<Rightarrow> string" where
  "str_nat n = (if n < 10 then [digit_char n] else str_nat (n div 10) @ [digit_char (n mod 10)])"
  by pat_completeness auto
termination
  by (relation "measure id") auto

declare str_nat.simps [simp del]

definition str_int :: "int \<Rightarrow> string" where
  "str_int i = (if i < 0 then CHR ''-'' # str_nat (nat (- i)) else str_nat (nat i))"

subsection \<open>UIState\<close>

text \<open>
  \<open>UIState.__init__\<close>. \<open>os_environ\<close> is the process environment,
  \<open>serial\<close> what \<open>detect_serial()\<close> returns and \<open>url\<close> what
  \<open>detect_download_url_from_sh(SCRIPT_PATH)\<close> returns on this machine.
\<close>

definition env_defaults :: "(string \<times> string) list" where
  "env_defaults =
     [(''DOWNLOAD_URL'', ''''),
      (''DOWNLOAD_UA'', ''Mozilla/5.0''),
      (''DOWNLOAD_REFERER'', ''''),
      (''SERVICE_NAME'', ''nexSoft''),
      (''TARGET_DIR'', ''/opt/nexSoft''),
      (''TIMESHIFT_SCRIPT'', ''/opt/scripts/TimeShift_FactorySettings.sh''),
      (''STATE_DIR'', ''/var/lib/nex''),
      (''SERVICE_START_TIMEOUT'', ''20''),
      (''SERVICE_POST_START_WAIT'', ''5''),
      (''SERVICE_LOG_LOOKBACK'', ''300''),
      (''WEBMIN_HTTP_TIMEOUT'', ''5''),
      (''NEXSOFT_CERT_DIR'', ''/opt/nexSoft/cert''),
      (''CERT_GROUP'', ''nexroot''),
      (''SERIAL_DEV'', ''/dev/ttyUSB0''),
      (''SERIAL_BAUD'', ''115200''),
      (''SERIAL_TIMEOUT_SEC'', ''5''),
      (''LOOPBACK_BYTES'', ''64''),
      (''SERIAL_NUMBER'', '''')]"

definition initial_flags :: "(string \<times> bool) list" where
  "initial_flags =
     [(''ENABLE_RS232_TEST'', True),
      (''ENABLE_RS232_MODEM'', False),
      (''NO_TIMESHIFT'', False),
      (''NO_UPDATE'', False),
      (''CLEAR_LOGS'', False),
      (''NO_NEXSOFT_BKP'', False),
      (''REMOVE_STATIC_IP_SERVICE'', True),
      (''ENABLE_SECONDARY_IP_SERVICE'', True),
      (''OVERWRITE_IDS'', False),
      (''NON_INTERACTIVE'', False)]"

text \<open>\<open>not d.get(k)\<close>: the key is absent or its value is the empty string.\<close>

definition falsy_get :: "(string \<rightharpoonup> string) \<Rightarrow> string \<Rightarrow> bool" where
  "falsy_get d k = (case d k of None \<Rightarrow> True | Some v \<Rightarrow> v = [])"

definition UIState_init :: "(string \<rightharpoonup> string) \<Rightarrow> string \<Rightarrow> string \<Rightarrow> ui_state" where
  "UIState_init os_environ serial url =
     (let e0 = map_of (map (\<lambda>(k, dflt). (k, dict_get os_environ k dflt)) env_defaults);
          e1 = (if falsy_get e0 ''SERIAL_NUMBER'' then e0(''SERIAL_NUMBER'' \<mapsto> serial) else e0);
          e2 = (if falsy_get e1 ''DOWNLOAD_URL'' then e1(''DOWNLOAD_URL'' \<mapsto> url) else e1)
      in \<lparr>theme_dark = True, mode = Neutral, message = ''Ready'', env = e2,
          flags = map_of initial_flags, field_index = 0, edit_mode = False,
          input_buffer = [], logs = [], proc = None\<rparr>)"

text \<open>
  \<open>UIState.log\<close>; \<open>ts\<close> is \<open>datetime.now().strftime('%H:%M:%S')\<close> at the call.
\<close>

definition log :: "string \<Rightarrow> string \<Rightarrow> ui_state \<Rightarrow> ui_state" where
  "log ts line st = st\<lparr>logs := py_last_n 500 (logs st @ [''['' @ ts @ ''] '' @ line])\<rparr>"

definition set_mode :: "ui_mode \<Rightarrow> string \<Rightarrow> ui_state \<Rightarrow> ui_state" where
  "set_mode m msg st = (if msg \<noteq> [] then st\<lparr>mode := m, message := msg\<rparr> else st\<lparr>mode := m\<rparr>)"

subsection \<open>TUI\<close>

text \<open>
  The two tables \<open>TUI.__init__\<close> builds: the fields, then the flags, each with
  its label. The Start action is the item after the last flag.
\<close>

definition fields_order :: "(string \<times> string) list" where
  "fields_order =
     [(''DOWNLOAD_URL'', ''Download URL''),
      (''DOWNLOAD_REFERER'', ''HTTP Referer (optional)''),
      (''SERVICE_NAME'', ''Service name''),
      (''TARGET_DIR'', ''Target dir''),
      (''SERIAL_DEV'', ''Serial device''),
      (''SERIAL_BAUD'', ''Serial baud''),
      (''SERIAL_NUMBER'', ''Product Serial Number''),
      (''TIMESHIFT_SCRIPT'', ''Timeshift script path''),
      (''SERVICE_START_TIMEOUT'', ''Service start timeout (s)''),
      (''SERVICE_POST_START_WAIT'', ''Post-start log delay (s)''),
      (''SERVICE_LOG_LOOKBACK'', ''Log lookback (s w/o restart)''),
      (''WEBMIN_HTTP_TIMEOUT'', ''Webmin HTTP timeout (s)'')]"

definition toggle_order :: "(string \<times> string) list" where
  "toggle_order =
     [(''ENABLE_RS232_TEST'', ''RS232 loopback test''),
      (''ENABLE_RS232_MODEM'', ''RS232 modem-lines test''),
      (''NO_UPDATE'', ''Skip update (QC only)''),
      (''NO_TIMESHIFT'', ''Disable Timeshift snapshot''),
      (''CLEAR_LOGS'', ''Clear journald before restart''),
      (''NO_NEXSOFT_BKP'', ''Skip /opt/nexSoft backup''),
      (''REMOVE_STATIC_IP_SERVICE'', ''Remove add-static-ip.service''),
      (''ENABLE_SECONDARY_IP_SERVICE'', ''Enable secondary-ip.service''),
      (''OVERWRITE_IDS'', ''Overwrite existing IDs''),
      (''NON_INTERACTIVE'', ''Non-interactive prompts'')]"

text \<open>
  The key codes of the curses library (the values of the ncurses header), and the
  \<open>ord\<close> of the letters the source names.
\<close>

definition KEY_DOWN :: int where "KEY_DOWN = 258"
definition KEY_UP :: int where "KEY_UP = 259"
definition KEY_LEFT :: int where "KEY_LEFT = 260"
definition KEY_RIGHT :: int where "KEY_RIGHT = 261"
definition KEY_BACKSPACE :: int where "KEY_BACKSPACE = 263"
definition KEY_F5 :: int where "KEY_F5 = 269"
definition KEY_ENTER :: int where "KEY_ENTER = 343"

definition ord_t :: int where "ord_t = 116"
definition ord_T :: int where "ord_T = 84"
definition ord_q :: int where "ord_q = 113"
definition ord_s :: int where "ord_s = 115"
definition ord_k :: int where "ord_k = 107"
definition ord_j :: int where "ord_j = 106"
definition ord_y :: int where "ord_y = 121"
definition ord_Y :: int where "ord_Y = 89"

text \<open>
  What one call of \<open>handle_input\<close> reads from outside: \<open>ch\<close> is the key
  \<open>getch\<close> returns (\<open>-1\<close> for none), \<open>confirm_ch\<close> the key the quit
  prompt reads when it is shown, \<open>detected\<close> what \<open>detect_serial()\<close> returns
  when it is called, and \<open>now\<close> the clock, for a log line written in the same
  iteration of the main loop.
\<close>

record event =
  ch :: int
  confirm_ch :: int
  detected :: string
  now :: string

datatype action = Quit | Start

text \<open>\<open>TUI._confirm_quit\<close> (the drawing of the prompt left out).\<close>

definition job_running :: "ui_state \<Rightarrow> bool" where
  "job_running st = (case proc st of None \<Rightarrow> False | Some p \<Rightarrow> poll p = None)"

definition confirm_quit :: "ui_state \<Rightarrow> event \<Rightarrow> bool" where
  "confirm_quit st ev =
     (if job_running st then confirm_ch ev = ord_y \<or> confirm_ch ev = ord_Y else True)"

text \<open>
  The block both start paths of \<open>handle_input\<close> run when the serial number is
  missing (lines 317--325 and 343--350 of the source are the same statements): the
  message, then, unless \<open>index\<close> raises \<open>ValueError\<close>, the focus, the buffer
  (\<open>detect_serial() or ''\<close>) and the edit mode.
\<close>

definition require_serial :: "ui_state \<Rightarrow> event \<Rightarrow> ui_state" where
  "require_serial st ev =
     (let st1 = st\<lparr>message := ''Product Serial Number is required.''\<rparr>
      in case list_index (map fst fields_order) ''SERIAL_NUMBER'' of
           None \<Rightarrow> st1
         | Some idx_sn \<Rightarrow>
             st1\<lparr>field_index := int idx_sn, input_buffer := detected ev, edit_mode := True\<rparr>)"

text \<open>
  \<open>TUI.handle_input\<close>: the chain of \<open>if\<close>s in the order of the source. The
  result is the returned action (\<open>None\<close>, \<open>'quit'\<close> or \<open>'start'\<close>) and the
  state afterwards, or the exception that escapes.
\<close>

definition handle_input :: "ui_state \<Rightarrow> event \<Rightarrow> py_error + (action option \<times> ui_state)" where
  "handle_input st ev =
     (let c = ch ev;
          n_fields = int (length fields_order);
          total_items = int (length fields_order) + int (length toggle_order) + 1
      in
      if c = - 1 then Inr (None, st)
      else if (c = ord_t \<or> c = ord_T) \<and> \<not> edit_mode st then
        Inr (None, st\<lparr>theme_dark := \<not> theme_dark st\<rparr>)
      else if (c = ord_q \<or> c = 27) \<and> \<not> edit_mode st then
        (if confirm_quit st ev then Inr (Some Quit, st) else Inr (None, st))
      else if (c = KEY_F5 \<or> c = ord_s) \<and> \<not> edit_mode st then
        (if falsy_get (env st) ''SERIAL_NUMBER'' then Inr (None, require_serial st ev)
         else Inr (Some Start, st))
      else if (c = KEY_UP \<or> c = ord_k) \<and> \<not> edit_mode st then
        Inr (None, st\<lparr>field_index := (field_index st - 1) mod total_items\<rparr>)
      else if (c = KEY_DOWN \<or> c = ord_j) \<and> \<not> edit_mode st then
        Inr (None, st\<lparr>field_index := (field_index st + 1) mod total_items\<rparr>)
      else if (c = KEY_LEFT \<or> c = KEY_RIGHT) \<and> \<not> edit_mode st then
        (if field_index st \<ge> n_fields then
           and_then (py_item toggle_order (field_index st - n_fields)) (\<lambda>(key, label).
             and_then (toggle_flag (flags st) key) (\<lambda>f. Inr (None, st\<lparr>flags := f\<rparr>)))
         else Inr (None, st))
      else if (c = KEY_ENTER \<or> c = 10 \<or> c = 13) \<and> \<not> edit_mode st then
        (if field_index st = int (length fields_order) + int (length toggle_order) then
           (if falsy_get (env st) ''SERIAL_NUMBER'' then Inr (None, require_serial st ev)
            else Inr (Some Start, st))
         else
           and_then (py_item fields_order (field_index st)) (\<lambda>(key, label).
             Inr (None, st\<lparr>input_buffer := dict_get (env st) key [], edit_mode := True\<rparr>)))
      else if edit_mode st then
        (if c = 27 then Inr (None, st\<lparr>edit_mode := False\<rparr>)
         else if c = 10 \<or> c = 13 then
           and_then (py_item fields_order (field_index st)) (\<lambda>(key, label).
             Inr (None, st\<lparr>env := (env st)(key \<mapsto> input_buffer st), edit_mode := False\<rparr>))
         else if c = KEY_BACKSPACE \<or> c = 127 \<or> c = 8 then
           Inr (None, st\<lparr>input_buffer := butlast (input_buffer st)\<rparr>)
         else if 32 \<le> c \<and> c \<le> 126 then
           Inr (None, st\<lparr>input_buffer := input_buffer st @ [char_of c]\<rparr>)
         else Inr (None, st))
      else Inr (None, st))"

subsection \<open>Starting a job\<close>

text \<open>\<open>args.append(a if flags[k] else b)\<close> and \<open>if flags[k]: args.append(a)\<close>.\<close>

definition append_either ::
  "(string \<rightharpoonup> bool) \<Rightarrow> string \<Rightarrow> string \<Rightarrow> string \<Rightarrow> string list \<Rightarrow> py_error + string list" where
  "append_either f k a b args = and_then (flag_item f k) (\<lambda>v. Inr (args @ [if v then a else b]))"

definition append_when ::
  "(string \<rightharpoonup> bool) \<Rightarrow> string \<Rightarrow> string \<Rightarrow> string list \<Rightarrow> py_error + string list" where
  "append_when f k a args = and_then (flag_item f k) (\<lambda>v. Inr (if v then args @ [a] else args))"

text \<open>
  Lines 395--404 of \<open>start_job\<close>: the command line, \<open>SCRIPT_PATH\<close> first.
\<close>

definition build_args :: "string \<Rightarrow> (string \<rightharpoonup> bool) \<Rightarrow> py_error + string list" where
  "build_args script_path f =
     and_then (append_either f ''ENABLE_RS232_TEST''
                 ''--enable-rs232-test'' ''--disable-rs232-test'' [script_path]) (\<lambda>args.
     and_then (append_when f ''NO_UPDATE'' ''--no-update'' args) (\<lambda>args.
     and_then (append_when f ''NO_TIMESHIFT'' ''--no-timeshift'' args) (\<lambda>args.
     and_then (append_when f ''CLEAR_LOGS'' ''--clear-logs'' args) (\<lambda>args.
     and_then (append_when f ''NO_NEXSOFT_BKP'' ''--no-nexSoft-bkp'' args) (\<lambda>args.
     and_then (append_either f ''REMOVE_STATIC_IP_SERVICE''
                 ''--remove-static-ip-service'' ''--keep-static-ip-service'' args) (\<lambda>args.
     and_then (append_either f ''ENABLE_SECONDARY_IP_SERVICE''
                 ''--enable-secondary-ip-service'' ''--disable-secondary-ip-service'' args) (\<lambda>args.
     and_then (append_when f ''OVERWRITE_IDS'' ''--overwrite-ids'' args) (\<lambda>args.
     append_when f ''NON_INTERACTIVE'' ''--non-interactive'' args))))))))"

text \<open>
  Lines 391--394: the child's environment is the process environment, overridden by the
  fields, overridden by one \<open>'1'\<close> or \<open>'0'\<close> per flag.
\<close>

definition build_env :: "(string \<rightharpoonup> string) \<Rightarrow> ui_state \<Rightarrow> (string \<rightharpoonup> string)" where
  "build_env os_environ st =
     (\<lambda>k. case flags st k of
            Some v \<Rightarrow> Some (if v then ''1'' else ''0'')
          | None \<Rightarrow> (os_environ ++ env st) k)"

text \<open>The worker thread \<open>start_job\<close> creates: what \<open>_run\<close> closes over.\<close>

record job =
  job_args :: "string list"
  job_env :: "string \<rightharpoonup> string"

text \<open>The character U+2026 at the end of two messages, in UTF-8.\<close>

definition ellipsis :: string where
  "ellipsis = [CHR 0xE2, CHR 0x80, CHR 0xA6]"

text \<open>
  \<open>TUI.start_job\<close> up to the creation of the thread. The result holds the thread
  that was started, \<open>None\<close> when the guard refused.
\<close>

definition start_job ::
  "string \<Rightarrow> (string \<rightharpoonup> string) \<Rightarrow> string \<Rightarrow> ui_state \<Rightarrow> py_error + (ui_state \<times> job option)" where
  "start_job script_path os_environ ts st =
     (if falsy_get (env st) ''SERIAL_NUMBER'' then
        Inr (log ts ''Refusing to start: missing SERIAL_NUMBER''
               (set_mode Neutral ''Product Serial Number is required.'' st), None)
      else
        and_then (build_args script_path (flags st)) (\<lambda>args.
          Inr (log ts (''Starting updater'' @ ellipsis)
                 (set_mode Work (''Running'' @ ellipsis) st),
               Some \<lparr>job_args = args, job_env = build_env os_environ st\<rparr>)))"

subsection \<open>The worker thread\<close>

text \<open>
  What the child process does, as far as \<open>_run\<close> can tell: \<open>Popen\<close> raises
  \<open>FileNotFoundError\<close>, or another exception (with its \<open>str\<close>), or returns a handle
  whose output is a list of lines, each with the clock at its arrival; the stream then
  ends with the exit code \<open>wait()\<close> returns, or reading it raises.
\<close>

datatype stream_end = Exited int | ReadFault string

datatype child = NotFound | SpawnFault string | Spawned "(string \<times> string) list" stream_end

text \<open>The \<open>for line in stdout\<close> loop.\<close>

fun drain :: "(string \<times> string) list \<Rightarrow> ui_state \<Rightarrow> ui_state" where
  "drain [] st = st"
| "drain ((ts, line) # rest) st = drain rest (log ts (rstrip_nl line) st)"

text \<open>
  The body of \<open>_run\<close>, run to its end without interleaving; \<open>ts\<close> is the clock
  when the summary line is written.
\<close>

definition run_job :: "string \<Rightarrow> job \<Rightarrow> child \<Rightarrow> string \<Rightarrow> ui_state \<Rightarrow> ui_state" where
  "run_job script_path j b ts st =
     (case b of
        NotFound \<Rightarrow>
          log ts (''ERROR: '' @ script_path @ '' not found'')
            (set_mode Neutral ''Shell script not found. Check SCRIPT_PATH.'' st)
      | SpawnFault e \<Rightarrow>
          log ts (''Exception: '' @ e) (set_mode Neutral (''Exception: '' @ e) st)
      | Spawned out fin \<Rightarrow>
          (let st1 = drain out (st\<lparr>proc := Some \<lparr>cmd = job_args j, returncode = None\<rparr>\<rparr>)
           in case fin of
                ReadFault e \<Rightarrow>
                  log ts (''Exception: '' @ e) (set_mode Neutral (''Exception: '' @ e) st1)
              | Exited rc \<Rightarrow>
                  (let st2 = st1\<lparr>proc := Some \<lparr>cmd = job_args j, returncode = Some rc\<rparr>\<rparr>
                   in if rc = 0 then
                        log ts ''Job finished: OK'' (set_mode Ok ''Completed successfully'' st2)
                      else
                        log ts (''Job finished: ERR rc='' @ str_int rc)
                          (set_mode Neutral (''Finished with errors (rc='' @ str_int rc @ '')'') st2))))"

subsection \<open>The main loop\<close>

text \<open>
  Line 443: \<open>state.proc is None or state.proc.poll() is not None\<close>.
\<close>

definition may_start :: "ui_state \<Rightarrow> bool" where
  "may_start st = (case proc st of None \<Rightarrow> True | Some p \<Rightarrow> poll p \<noteq> None)"

text \<open>
  One iteration of the loop of \<open>run\<close> (drawing left out): whether the loop breaks, the
  state, and the worker thread started in this iteration, if any.
\<close>

definition main_step ::
  "string \<Rightarrow> (string \<rightharpoonup> string) \<Rightarrow> ui_state \<Rightarrow> event \<Rightarrow> py_error + (bool \<times> ui_state \<times> job option)" where
  "main_step script_path os_environ st ev =
     and_then (handle_input st ev) (\<lambda>(a, st1).
       if a = Some Quit then Inr (True, st1, None)
       else if a = Some Start \<and> may_start st1 then
         and_then (start_job script_path os_environ (now ev) st1) (\<lambda>(st2, j). Inr (False, st2, j))
       else Inr (False, st1, None))"

text \<open>
  The loop over the key events that arrive, with the threads it starts in order. The
  first component tells whether the loop has ended (\<open>'quit'\<close>) or waits for more.
\<close>

fun main_loop ::
  "string \<Rightarrow> (string \<rightharpoonup> string) \<Rightarrow> ui_state \<Rightarrow> event list \<Rightarrow> py_error + (bool \<times> ui_state \<times> job list)" where
  "main_loop script_path os_environ st [] = Inr (False, st, [])"
| "main_loop script_path os_environ st (ev # evs) =
     and_then (main_step script_path os_environ st ev) (\<lambda>(quit, st1, j).
       if quit then Inr (True, st1, [])
       else and_then (main_loop script_path os_environ st1 evs) (\<lambda>(q, st2, js).
              Inr (q, st2, (case j of None \<Rightarrow> js | Some t \<Rightarrow> t # js))))"

subsection \<open>Sequences of toggles, and the states the examples use\<close>

text \<open>
  What holds of every state the main loop reaches: the selection is on an item, a field
  is selected while the edit mode is on, and every flag of \<open>toggle_order\<close> has a value.
\<close>

definition well_formed :: "ui_state \<Rightarrow> bool" where
  "well_formed st =
     (0 \<le> field_index st \<and> field_index st < 23 \<and> (edit_mode st \<longrightarrow> field_index st < 12)
      \<and> (\<forall>p\<in>set toggle_order. flags st (fst p) \<noteq> None))"

text \<open>The flag toggles of a list of keys, one after the other.\<close>

fun toggle_all :: "string list \<Rightarrow> (string \<rightharpoonup> bool) \<Rightarrow> py_error + (string \<rightharpoonup> bool)" where
  "toggle_all [] f = Inr f"
| "toggle_all (k # ks) f = and_then (toggle_flag f k) (toggle_all ks)"

text \<open>
  Every token \<open>start_job\<close> can append after the script path, in the order of its
  statements.
\<close>

definition arg_tokens :: "string list" where
  "arg_tokens =
     [''--enable-rs232-test'', ''--disable-rs232-test'', ''--no-update'', ''--no-timeshift'',
      ''--clear-logs'', ''--no-nexSoft-bkp'', ''--remove-static-ip-service'',
      ''--keep-static-ip-service'', ''--enable-secondary-ip-service'',
      ''--disable-secondary-ip-service'', ''--overwrite-ids'', ''--non-interactive'']"

text \<open>
  The flags of the scenario that pins the argument order: the loopback test and the
  skipped update are on, every other flag is off.
\<close>

definition scenario_flags :: "string \<rightharpoonup> bool" where
  "scenario_flags =
     map_of
       [(''ENABLE_RS232_TEST'', True),
        (''ENABLE_RS232_MODEM'', False),
        (''NO_TIMESHIFT'', False),
        (''NO_UPDATE'', True),
        (''CLEAR_LOGS'', False),
        (''NO_NEXSOFT_BKP'', False),
        (''REMOVE_STATIC_IP_SERVICE'', False),
        (''ENABLE_SECONDARY_IP_SERVICE'', False),
        (''OVERWRITE_IDS'', False),
        (''NON_INTERACTIVE'', False)]"

text \<open>
  A machine with an empty environment where no serial number and no download URL are
  detected, and the same machine with the serial number \<open>SN42\<close>.
\<close>

definition blank_state :: ui_state where
  "blank_state = UIState_init Map.empty [] []"

definition ready_state :: ui_state where
  "ready_state = UIState_init Map.empty ''SN42'' []"

text \<open>A state whose log holds 500 lines: the oldest, then 499 fillers.\<close>

definition full_log_state :: ui_state where
  "full_log_state = ready_state\<lparr>logs := ''[11:59:59] oldest'' # replicate 499 ''[12:00:00] fill''\<rparr>"

text \<open>A state whose job is live: the handle is there and \<open>poll()\<close> gives \<open>None\<close>.\<close>

definition running_state :: ui_state where
  "running_state =
     ready_state\<lparr>proc := Some \<lparr>cmd = [''nexsoft_update_qc.sh''], returncode = None\<rparr>\<rparr>"

definition key :: "int \<Rightarrow> event" where
  "key c = \<lparr>ch = c, confirm_ch = - 1, detected = [], now = ''12:00:00''\<rparr>"

section \<open>Properties\<close>

subsection \<open>Starting without a serial number\<close>

lemmas key_defs =
  KEY_DOWN_def KEY_UP_def KEY_LEFT_def KEY_RIGHT_def KEY_BACKSPACE_def KEY_F5_def
  KEY_ENTER_def ord_t_def ord_T_def ord_q_def ord_s_def ord_k_def ord_j_def ord_y_def
  ord_Y_def

lemma length_fields_order [simp]: "length fields_order = 12"
  by (simp add: fields_order_def)

lemma length_toggle_order [simp]: "length toggle_order = 10"
  by (simp add: toggle_order_def)

lemma index_serial: "list_index (map fst fields_order) ''SERIAL_NUMBER'' = Some 6"
  by (simp add: fields_order_def)

lemma require_serial_eq:
  "require_serial st ev =
     st\<lparr>message := ''Product Serial Number is required.'', field_index := 6,
        input_buffer := detected ev, edit_mode := True\<rparr>"
  by (simp add: require_serial_def index_serial)

lemma start_key_missing_serial:
  assumes "falsy_get (env st) ''SERIAL_NUMBER''" "\<not> edit_mode st"
    and "ch ev = KEY_F5 \<or> ch ev = ord_s"
  shows "handle_input st ev = Inr (None, require_serial st ev)"
  using assms by (auto simp add: handle_input_def key_defs)

lemma enter_on_start_missing_serial:
  assumes "falsy_get (env st) ''SERIAL_NUMBER''" "\<not> edit_mode st"
    and "ch ev = KEY_ENTER \<or> ch ev = 10 \<or> ch ev = 13" "field_index st = 22"
  shows "handle_input st ev = Inr (None, require_serial st ev)"
  using assms by (auto simp add: handle_input_def key_defs)

text \<open>
  Claim C1. With \<open>SERIAL_NUMBER\<close> the empty string and the controller not editing,
  the start key (\<open>F5\<close> or \<open>s\<close>), and Enter on the Start action, start no worker
  thread in that iteration of the main loop: the loop goes on with the warning as
  message, the selection on item 6 (the \<open>SERIAL_NUMBER\<close> field), the buffer holding
  what \<open>detect_serial()\<close> returned, and the edit mode on. \<open>start_job\<close> itself, were
  it called on such a state, starts no thread either and leaves the process handle alone.
\<close>

theorem start_without_serial_number:
  assumes "env st ''SERIAL_NUMBER'' = Some []" and "\<not> edit_mode st"
    and "ch ev = KEY_F5 \<or> ch ev = ord_s \<or>
         ((ch ev = KEY_ENTER \<or> ch ev = 10 \<or> ch ev = 13) \<and>
          field_index st = int (length fields_order + length toggle_order))"
  shows "main_step script_path os_environ st ev =
           Inr (False,
                st\<lparr>message := ''Product Serial Number is required.'', field_index := 6,
                   input_buffer := detected ev, edit_mode := True\<rparr>,
                None)
         \<and> py_item fields_order 6 = Inr (''SERIAL_NUMBER'', ''Product Serial Number'')
         \<and> (\<exists>st'. start_job script_path os_environ ts st = Inr (st', None) \<and> proc st' = proc st)"
proof -
  have f: "falsy_get (env st) ''SERIAL_NUMBER''"
    using assms(1) by (simp add: falsy_get_def)
  have "handle_input st ev = Inr (None, require_serial st ev)"
    using assms(3) start_key_missing_serial [OF f assms(2)]
      enter_on_start_missing_serial [OF f assms(2)] by auto
  then have 1: "main_step script_path os_environ st ev = Inr (False, require_serial st ev, None)"
    by (simp add: main_step_def and_then_def)
  have 2: "py_item fields_order 6 = Inr (''SERIAL_NUMBER'', ''Product Serial Number'')"
    by (simp add: py_item_def fields_order_def)
  have 3: "\<exists>st'. start_job script_path os_environ ts st = Inr (st', None) \<and> proc st' = proc st"
    using f by (simp add: start_job_def log_def set_mode_def)
  show ?thesis using 1 2 3 by (simp add: require_serial_eq)
qed

lemma UIState_init_sel [simp]:
  "theme_dark (UIState_init os serial url) = True"
  "mode (UIState_init os serial url) = Neutral"
  "message (UIState_init os serial url) = ''Ready''"
  "flags (UIState_init os serial url) = map_of initial_flags"
  "field_index (UIState_init os serial url) = 0"
  "edit_mode (UIState_init os serial url) = False"
  "input_buffer (UIState_init os serial url) = []"
  "logs (UIState_init os serial url) = []"
  "proc (UIState_init os serial url) = None"
  by (simp_all add: UIState_init_def Let_def)

lemma blank_serial: "env blank_state ''SERIAL_NUMBER'' = Some []"
  by (simp add: blank_state_def UIState_init_def Let_def env_defaults_def dict_get_def falsy_get_def)

lemma ready_serial: "env ready_state ''SERIAL_NUMBER'' = Some ''SN42''"
  by (simp add: ready_state_def UIState_init_def Let_def env_defaults_def dict_get_def falsy_get_def)

theorem start_without_serial_number_witness:
  "env blank_state ''SERIAL_NUMBER'' = Some [] \<and> \<not> edit_mode blank_state \<and>
   ch (key ord_s) = ord_s \<and>
   main_step ''nexsoft_update_qc.sh'' Map.empty blank_state (key ord_s) =
     Inr (False,
          blank_state\<lparr>message := ''Product Serial Number is required.'', field_index := 6,
                       input_buffer := [], edit_mode := True\<rparr>,
          None)"
proof -
  have e: "\<not> edit_mode blank_state"
    by (simp add: blank_state_def)
  have k: "ch (key ord_s) = KEY_F5 \<or> ch (key ord_s) = ord_s \<or>
         ((ch (key ord_s) = KEY_ENTER \<or> ch (key ord_s) = 10 \<or> ch (key ord_s) = 13) \<and>
          field_index blank_state = int (length fields_order + length toggle_order))"
    by (simp add: key_def)
  show ?thesis
    using start_without_serial_number [OF blank_serial e k, of "''nexsoft_update_qc.sh''" Map.empty]
      blank_serial e
    by (simp add: key_def)
qed

subsection \<open>The command line\<close>

lemmas job_defs = and_then_def flag_item_def append_either_def append_when_def

lemma build_args_closed:
  assumes "f ''ENABLE_RS232_TEST'' = Some v1" "f ''NO_UPDATE'' = Some v2"
    "f ''NO_TIMESHIFT'' = Some v3" "f ''CLEAR_LOGS'' = Some v4" "f ''NO_NEXSOFT_BKP'' = Some v5"
    "f ''REMOVE_STATIC_IP_SERVICE'' = Some v6" "f ''ENABLE_SECONDARY_IP_SERVICE'' = Some v7"
    "f ''OVERWRITE_IDS'' = Some v8" "f ''NON_INTERACTIVE'' = Some v9"
  shows "build_args sp f =
     Inr (sp # ([if v1 then ''--enable-rs232-test'' else ''--disable-rs232-test'']
          @ (if v2 then [''--no-update''] else [])
          @ (if v3 then [''--no-timeshift''] else [])
          @ (if v4 then [''--clear-logs''] else [])
          @ (if v5 then [''--no-nexSoft-bkp''] else [])
          @ [if v6 then ''--remove-static-ip-service'' else ''--keep-static-ip-service'']
          @ [if v7 then ''--enable-secondary-ip-service'' else ''--disable-secondary-ip-service'']
          @ (if v8 then [''--overwrite-ids''] else [])
          @ (if v9 then [''--non-interactive''] else [])))"
  unfolding build_args_def job_defs using assms by simp

lemma build_args_keys:
  assumes "build_args sp f = Inr args"
  shows "\<exists>v1 v2 v3 v4 v5 v6 v7 v8 v9.
    f ''ENABLE_RS232_TEST'' = Some v1 \<and> f ''NO_UPDATE'' = Some v2 \<and>
    f ''NO_TIMESHIFT'' = Some v3 \<and> f ''CLEAR_LOGS'' = Some v4 \<and> f ''NO_NEXSOFT_BKP'' = Some v5 \<and>
    f ''REMOVE_STATIC_IP_SERVICE'' = Some v6 \<and> f ''ENABLE_SECONDARY_IP_SERVICE'' = Some v7 \<and>
    f ''OVERWRITE_IDS'' = Some v8 \<and> f ''NON_INTERACTIVE'' = Some v9"
  using assms unfolding build_args_def job_defs
  by (simp split: option.splits)

lemma subseq_tokens:
  "subseq ([if v1 then ''--enable-rs232-test'' else ''--disable-rs232-test'']
          @ (if v2 then [''--no-update''] else [])
          @ (if v3 then [''--no-timeshift''] else [])
          @ (if v4 then [''--clear-logs''] else [])
          @ (if v5 then [''--no-nexSoft-bkp''] else [])
          @ [if v6 then ''--remove-static-ip-service'' else ''--keep-static-ip-service'']
          @ [if v7 then ''--enable-secondary-ip-service'' else ''--disable-secondary-ip-service'']
          @ (if v8 then [''--overwrite-ids''] else [])
          @ (if v9 then [''--non-interactive''] else [])) arg_tokens"
proof -
  have t: "arg_tokens = [''--enable-rs232-test'', ''--disable-rs232-test''] @ [''--no-update'']
     @ [''--no-timeshift''] @ [''--clear-logs''] @ [''--no-nexSoft-bkp'']
     @ [''--remove-static-ip-service'', ''--keep-static-ip-service'']
     @ [''--enable-secondary-ip-service'', ''--disable-secondary-ip-service'']
     @ [''--overwrite-ids''] @ [''--non-interactive'']"
    by (simp add: arg_tokens_def)
  have either: "\<And>v a b. subseq [if v then a else b] [a, b :: string]"
    by simp
  have opt: "\<And>v a. subseq (if v then [a] else []) [a :: string]"
    by simp
  show ?thesis
    unfolding t by (intro list_emb_append_mono either opt)
qed

lemma build_args_subseq:
  assumes "build_args sp f = Inr args"
  shows "\<exists>rest. args = sp # rest \<and> subseq rest arg_tokens"
proof -
  from build_args_keys [OF assms] obtain v1 v2 v3 v4 v5 v6 v7 v8 v9 where
    "f ''ENABLE_RS232_TEST'' = Some v1" "f ''NO_UPDATE'' = Some v2"
    "f ''NO_TIMESHIFT'' = Some v3" "f ''CLEAR_LOGS'' = Some v4" "f ''NO_NEXSOFT_BKP'' = Some v5"
    "f ''REMOVE_STATIC_IP_SERVICE'' = Some v6" "f ''ENABLE_SECONDARY_IP_SERVICE'' = Some v7"
    "f ''OVERWRITE_IDS'' = Some v8" "f ''NON_INTERACTIVE'' = Some v9"
    by blast
  from build_args_closed [OF this, of sp] assms subseq_tokens [of v1 v2 v3 v4 v5 v6 v7 v8 v9]
  show ?thesis by simp
qed

lemma build_args_scenario:
  "build_args sp scenario_flags =
     Inr [sp, ''--enable-rs232-test'', ''--no-update'', ''--keep-static-ip-service'',
          ''--disable-secondary-ip-service'']"
  by (simp add: build_args_def job_defs scenario_flags_def)

lemma toggle_flag_cases:
  "toggle_flag f k = (case f k of None \<Rightarrow> Inl KeyError | Some v \<Rightarrow> Inr (f(k \<mapsto> \<not> v)))"
  by (simp add: toggle_flag_def job_defs split: option.splits)

lemma toggle_step_commute:
  "and_then (and_then r (\<lambda>f. toggle_flag f a)) (\<lambda>f. toggle_flag f b) =
   and_then (and_then r (\<lambda>f. toggle_flag f b)) (\<lambda>f. toggle_flag f a)"
proof (cases r)
  case (Inl e)
  then show ?thesis by (simp add: and_then_def)
next
  case (Inr f)
  show ?thesis
  proof (cases "a = b")
    case True
    then show ?thesis by simp
  next
    case False
    then show ?thesis
      by (auto simp add: Inr and_then_def toggle_flag_cases fun_upd_twist split: option.splits)
  qed
qed

lemma toggle_all_fold:
  "and_then r (toggle_all ks) = fold (\<lambda>k r. and_then r (\<lambda>f. toggle_flag f k)) ks r"
proof (induction ks arbitrary: r)
  case Nil
  show ?case by (simp add: and_then_def split: sum.splits)
next
  case (Cons k ks)
  have eq: "and_then r (toggle_all (k # ks)) = and_then (and_then r (\<lambda>f. toggle_flag f k)) (toggle_all ks)"
    by (simp add: and_then_def split: sum.splits)
  show ?case unfolding eq Cons.IH by simp
qed

lemma toggle_all_permute:
  assumes "mset ks = mset ks'"
  shows "toggle_all ks f = toggle_all ks' f"
proof -
  have "fold (\<lambda>k r. and_then r (\<lambda>f. toggle_flag f k)) ks = fold (\<lambda>k r. and_then r (\<lambda>f. toggle_flag f k)) ks'"
    by (rule fold_multiset_equiv [OF _ assms]) (simp add: fun_eq_iff toggle_step_commute)
  then have "and_then (Inr f) (toggle_all ks) = and_then (Inr f) (toggle_all ks')"
    by (simp add: toggle_all_fold)
  then show ?thesis by (simp add: and_then_def)
qed

text \<open>
  Claim C2. With the loopback test and the skipped update on and every other flag off,
  the command line is the script path followed by \<open>--enable-rs232-test\<close>,
  \<open>--no-update\<close>, \<open>--keep-static-ip-service\<close>,
  \<open>--disable-secondary-ip-service\<close>, in that order. For every flag assignment on
  which \<open>start_job\<close> builds a command line, the tokens after the script path are
  a subsequence of \<open>arg_tokens\<close>, the one fixed sequence. The same toggles made in
  another order give the same command line.
\<close>

theorem argument_order_is_fixed:
  "build_args sp scenario_flags =
     Inr [sp, ''--enable-rs232-test'', ''--no-update'', ''--keep-static-ip-service'',
          ''--disable-secondary-ip-service'']
   \<and> (build_args sp f = Inr args \<longrightarrow> (\<exists>rest. args = sp # rest \<and> subseq rest arg_tokens))
   \<and> (mset ks = mset ks' \<longrightarrow>
        and_then (toggle_all ks f) (build_args sp) = and_then (toggle_all ks' f) (build_args sp))"
proof (intro conjI impI)
  show "build_args sp scenario_flags =
     Inr [sp, ''--enable-rs232-test'', ''--no-update'', ''--keep-static-ip-service'',
          ''--disable-secondary-ip-service'']"
    by (rule build_args_scenario)
next
  assume "build_args sp f = Inr args"
  then show "\<exists>rest. args = sp # rest \<and> subseq rest arg_tokens"
    by (rule build_args_subseq)
next
  assume "mset ks = mset ks'"
  then have "toggle_all ks f = toggle_all ks' f"
    by (rule toggle_all_permute)
  then show "and_then (toggle_all ks f) (build_args sp) = and_then (toggle_all ks' f) (build_args sp)"
    by simp
qed


theorem argument_order_is_fixed_witness:
  "build_args ''nexsoft_update_qc.sh'' (map_of initial_flags) =
     Inr [''nexsoft_update_qc.sh'', ''--enable-rs232-test'', ''--remove-static-ip-service'',
          ''--enable-secondary-ip-service'']
   \<and> subseq [''--enable-rs232-test'', ''--remove-static-ip-service'',
          ''--enable-secondary-ip-service''] arg_tokens
   \<and> mset [''NO_UPDATE'', ''CLEAR_LOGS''] = mset [''CLEAR_LOGS'', ''NO_UPDATE'']
   \<and> and_then (toggle_all [''NO_UPDATE'', ''CLEAR_LOGS''] (map_of initial_flags))
         (build_args ''nexsoft_update_qc.sh'') =
       and_then (toggle_all [''CLEAR_LOGS'', ''NO_UPDATE''] (map_of initial_flags))
         (build_args ''nexsoft_update_qc.sh'')"
proof -
  have a: "build_args ''nexsoft_update_qc.sh'' (map_of initial_flags) =
     Inr [''nexsoft_update_qc.sh'', ''--enable-rs232-test'', ''--remove-static-ip-service'',
          ''--enable-secondary-ip-service'']"
    by (simp add: build_args_def job_defs initial_flags_def)
  have m: "mset [''NO_UPDATE'', ''CLEAR_LOGS''] = mset [''CLEAR_LOGS'', ''NO_UPDATE'']"
    by simp
  from argument_order_is_fixed [of "''nexsoft_update_qc.sh''" "map_of initial_flags"
      "[''nexsoft_update_qc.sh'', ''--enable-rs232-test'', ''--remove-static-ip-service'',
          ''--enable-secondary-ip-service'']"
      "[''NO_UPDATE'', ''CLEAR_LOGS'']" "[''CLEAR_LOGS'', ''NO_UPDATE'']"] a m
  show ?thesis by simp
qed

subsection \<open>The log buffer\<close>

lemma length_py_last_n: "length (py_last_n n xs) \<le> n"
  by (simp add: py_last_n_def)

lemma logs_log_bound: "length (logs (log ts line st)) \<le> 500"
  by (simp add: log_def length_py_last_n)

lemma log_fold_bound:
  "length (logs st) \<le> 500 \<Longrightarrow> length (logs (fold (\<lambda>(ts, line). log ts line) ls st)) \<le> 500"
proof (induction ls arbitrary: st)
  case Nil
  then show ?case by simp
next
  case (Cons p ls)
  obtain ts line where p: "p = (ts, line)" by (cases p)
  show ?case using Cons.IH [of "log ts line st"] by (simp add: p logs_log_bound)
qed

lemma log_at_capacity:
  "length (logs st) = 500 \<Longrightarrow> logs (log ts line st) = tl (logs st) @ [''['' @ ts @ ''] '' @ line]"
  by (cases "logs st") (simp_all add: log_def py_last_n_def)

lemma log_below_capacity:
  "length (logs st) < 500 \<Longrightarrow> logs (log ts line st) = logs st @ [''['' @ ts @ ''] '' @ line]"
  by (simp add: log_def py_last_n_def)

text \<open>
  Claim C5. After an append the log holds at most 500 lines, and so it does after every
  sequence of appends to a log that held at most 500. An append to a log of exactly 500
  lines drops the oldest line and keeps the others in order before the new one; below
  500 nothing is dropped.
\<close>

theorem log_buffer_bounded_fifo:
  "length (logs (log ts line st)) \<le> 500
   \<and> (length (logs st) \<le> 500 \<longrightarrow>
        length (logs (fold (\<lambda>(ts, line). log ts line) ls st)) \<le> 500)
   \<and> (length (logs st) = 500 \<longrightarrow>
        logs (log ts line st) = tl (logs st) @ [''['' @ ts @ ''] '' @ line])
   \<and> (length (logs st) < 500 \<longrightarrow>
        logs (log ts line st) = logs st @ [''['' @ ts @ ''] '' @ line])"
  using logs_log_bound log_fold_bound log_at_capacity log_below_capacity by blast

theorem log_buffer_bounded_fifo_witness:
  "length (logs (full_log_state)) = 500
   \<and> length (logs (fold (\<lambda>(ts, line). log ts line)
        [(''12:00:01'', ''A''), (''12:00:02'', ''B'')] full_log_state)) \<le> 500
   \<and> logs (log ''12:00:01'' ''A'' full_log_state) =
       replicate 499 ''[12:00:00] fill'' @ [''[12:00:01] A'']"
proof -
  have l: "length (logs full_log_state) = 500"
    by (simp add: full_log_state_def)
  have t: "tl (logs full_log_state) = replicate 499 ''[12:00:00] fill''"
    by (simp add: full_log_state_def)
  from log_buffer_bounded_fifo [of "''12:00:01''" "''A''" full_log_state
      "[(''12:00:01'', ''A''), (''12:00:02'', ''B'')]"] l t
  show ?thesis by simp
qed

subsection \<open>One job at a time\<close>

text \<open>\<open>handle_input\<close> and \<open>start_job\<close> never touch the process handle.\<close>

lemma handle_input_proc:
  assumes "handle_input st ev = Inr (a, st1)"
  shows "proc st1 = proc st"
  using assms
  by (auto simp add: handle_input_def Let_def require_serial_eq and_then_def
      split: if_splits sum.splits prod.splits)

lemma handle_input_start_same:
  assumes "handle_input st ev = Inr (Some Start, st1)"
  shows "st1 = st"
  using assms
  by (auto simp add: handle_input_def Let_def and_then_def
      split: if_splits sum.splits prod.splits)

lemma start_job_proc:
  assumes "start_job sp os ts st = Inr (st1, j)"
  shows "proc st1 = proc st"
  using assms
  by (auto simp add: start_job_def and_then_def log_def set_mode_def split: if_splits sum.splits)

lemma may_start_iff: "may_start st = (\<not> job_running st)"
  by (simp add: may_start_def job_running_def split: option.splits)

lemma main_step_running:
  assumes "job_running st" "main_step sp os st ev = Inr (q, st1, j)"
  shows "j = None \<and> proc st1 = proc st"
proof -
  from assms(2) obtain a st0 where h: "handle_input st ev = Inr (a, st0)"
    by (auto simp add: main_step_def and_then_def split: sum.splits)
  have p: "proc st0 = proc st" using h by (rule handle_input_proc)
  then have "\<not> may_start st0" using assms(1) by (simp add: may_start_iff job_running_def)
  then show ?thesis using assms(2) h p
    by (auto simp add: main_step_def and_then_def split: if_splits)
qed

lemma main_loop_running:
  assumes "job_running st" "main_loop sp os st evs = Inr (q, st1, js)"
  shows "js = [] \<and> proc st1 = proc st"
  using assms
proof (induction evs arbitrary: st q st1 js)
  case Nil
  then show ?case by simp
next
  case (Cons ev evs)
  from Cons.prems(2) obtain q0 st0 j0 where s: "main_step sp os st ev = Inr (q0, st0, j0)"
    by (auto simp add: and_then_def split: sum.splits)
  from main_step_running [OF Cons.prems(1) s] have j0: "j0 = None" and p0: "proc st0 = proc st"
    by simp_all
  show ?case
  proof (cases q0)
    case True
    then show ?thesis using Cons.prems(2) s j0 p0 by (simp add: and_then_def)
  next
    case False
    from Cons.prems(2) s False obtain q2 st2 js2 where
      l: "main_loop sp os st0 evs = Inr (q2, st2, js2)"
      by (auto simp add: and_then_def split: sum.splits)
    have r: "job_running st0" using Cons.prems(1) p0 by (simp add: job_running_def)
    from Cons.IH [OF r l] have "js2 = []" "proc st2 = proc st0" by simp_all
    then show ?thesis using Cons.prems(2) s False l j0 p0 by (simp add: and_then_def)
  qed
qed

lemma main_step_spawn:
  assumes "main_step sp os st ev = Inr (q, st1, Some j)"
  shows "proc st = None \<or> (\<exists>p rc. proc st = Some p \<and> poll p = Some rc)"
proof -
  have "\<not> job_running st" using main_step_running [OF _ assms] by blast
  then show ?thesis by (auto simp add: job_running_def split: option.splits)
qed

text \<open>
  Claim C3. While the process handle is there and \<open>poll()\<close> reports the child
  running, an iteration of the main loop in which \<open>handle_input\<close> returns
  \<open>'start'\<close> changes nothing and starts no worker thread; over any sequence of key
  events met in that condition no thread is started and the handle stays the same. An
  iteration starts a thread only from a state whose handle is absent or reports an exit
  code.
\<close>

theorem start_while_running_is_noop:
  "(proc st = Some p \<and> poll p = None \<and> handle_input st ev = Inr (Some Start, st1) \<longrightarrow>
      main_step sp os st ev = Inr (False, st, None))
   \<and> (proc st = Some p \<and> poll p = None \<and> main_loop sp os st evs = Inr (q, st2, js) \<longrightarrow>
        js = [] \<and> proc st2 = Some p)
   \<and> (main_step sp os st ev = Inr (q, st2, Some j) \<longrightarrow>
        proc st = None \<or> (\<exists>p rc. proc st = Some p \<and> poll p = Some rc))"
proof (intro conjI impI)
  assume a: "proc st = Some p \<and> poll p = None \<and> handle_input st ev = Inr (Some Start, st1)"
  then have "st1 = st" using handle_input_start_same by blast
  moreover have "\<not> may_start st" using a by (simp add: may_start_def)
  ultimately show "main_step sp os st ev = Inr (False, st, None)"
    using a by (simp add: main_step_def and_then_def)
next
  assume a: "proc st = Some p \<and> poll p = None \<and> main_loop sp os st evs = Inr (q, st2, js)"
  then have "job_running st" by (simp add: job_running_def)
  from main_loop_running [OF this] a show "js = []" by blast
  from main_loop_running [OF \<open>job_running st\<close>] a show "proc st2 = Some p" by auto
next
  assume "main_step sp os st ev = Inr (q, st2, Some j)"
  then show "proc st = None \<or> (\<exists>p rc. proc st = Some p \<and> poll p = Some rc)"
    by (rule main_step_spawn)
qed


lemma key_sel [simp]:
  "ch (key c) = c" "confirm_ch (key c) = - 1" "detected (key c) = []"
  "now (key c) = ''12:00:00''"
  by (simp_all add: key_def)

lemma start_key_with_serial:
  assumes "\<not> falsy_get (env st) ''SERIAL_NUMBER''" "\<not> edit_mode st"
  shows "handle_input st (key ord_s) = Inr (Some Start, st)"
  using assms by (simp add: handle_input_def key_defs)

lemma running_state_sel:
  "proc running_state = Some \<lparr>cmd = [''nexsoft_update_qc.sh''], returncode = None\<rparr>"
  "\<not> edit_mode running_state"
  "\<not> falsy_get (env running_state) ''SERIAL_NUMBER''"
  using ready_serial by (simp_all add: running_state_def falsy_get_def ready_state_def)

lemma ready_state_sel:
  "proc ready_state = None"
  "\<not> edit_mode ready_state"
  "\<not> falsy_get (env ready_state) ''SERIAL_NUMBER''"
  "flags ready_state = map_of initial_flags"
  using ready_serial by (simp_all add: falsy_get_def ready_state_def)

lemma initial_args:
  "build_args sp (map_of initial_flags) =
     Inr [sp, ''--enable-rs232-test'', ''--remove-static-ip-service'',
          ''--enable-secondary-ip-service'']"
  by (simp add: build_args_def job_defs initial_flags_def)

theorem start_while_running_is_noop_witness:
  "proc running_state = Some \<lparr>cmd = [''nexsoft_update_qc.sh''], returncode = None\<rparr>
   \<and> poll \<lparr>cmd = [''nexsoft_update_qc.sh''], returncode = None\<rparr> = None
   \<and> handle_input running_state (key ord_s) = Inr (Some Start, running_state)
   \<and> main_step ''nexsoft_update_qc.sh'' Map.empty running_state (key ord_s) =
        Inr (False, running_state, None)
   \<and> main_loop ''nexsoft_update_qc.sh'' Map.empty running_state [key ord_s, key ord_s] =
        Inr (False, running_state, [])
   \<and> main_step ''nexsoft_update_qc.sh'' Map.empty ready_state (key ord_s) =
        Inr (False,
             log ''12:00:00'' (''Starting updater'' @ ellipsis)
               (set_mode Work (''Running'' @ ellipsis) ready_state),
             Some \<lparr>job_args = [''nexsoft_update_qc.sh'', ''--enable-rs232-test'',
                                ''--remove-static-ip-service'', ''--enable-secondary-ip-service''],
                   job_env = build_env Map.empty ready_state\<rparr>)
   \<and> proc ready_state = None"
proof -
  let ?p = "\<lparr>cmd = [''nexsoft_update_qc.sh''], returncode = None\<rparr>"
  let ?sp = "''nexsoft_update_qc.sh''"
  let ?st2 = "log ''12:00:00'' (''Starting updater'' @ ellipsis)
               (set_mode Work (''Running'' @ ellipsis) ready_state)"
  let ?j = "\<lparr>job_args = [''nexsoft_update_qc.sh'', ''--enable-rs232-test'',
                                ''--remove-static-ip-service'', ''--enable-secondary-ip-service''],
                   job_env = build_env Map.empty ready_state\<rparr>"
  have p: "poll ?p = None" by (simp add: poll_def)
  have h: "handle_input running_state (key ord_s) = Inr (Some Start, running_state)"
    by (rule start_key_with_serial [OF running_state_sel(3) running_state_sel(2)])
  have ns: "\<not> may_start running_state"
    by (simp add: may_start_def running_state_sel(1) poll_def)
  have s: "main_step ?sp Map.empty running_state (key ord_s) = Inr (False, running_state, None)"
    by (simp add: main_step_def h and_then_def ns)
  have l: "main_loop ?sp Map.empty running_state [key ord_s, key ord_s] =
        Inr (False, running_state, [])"
    by (simp add: s and_then_def)
  have h2: "handle_input ready_state (key ord_s) = Inr (Some Start, ready_state)"
    by (rule start_key_with_serial [OF ready_state_sel(3) ready_state_sel(2)])
  have s2: "main_step ?sp Map.empty ready_state (key ord_s) = Inr (False, ?st2, Some ?j)"
    by (simp add: main_step_def h2 and_then_def may_start_def ready_state_sel start_job_def
        initial_args)
  from start_while_running_is_noop [of running_state ?p "key ord_s" running_state ?sp Map.empty
      "[key ord_s, key ord_s]" False running_state "[]" ?j]
    running_state_sel(1) p h l
  have a: "main_step ?sp Map.empty running_state (key ord_s) = Inr (False, running_state, None)"
    by simp
  from start_while_running_is_noop [of ready_state ?p "key ord_s" ready_state ?sp Map.empty
      "[]" False ?st2 "[]" ?j] s2
  have b: "proc ready_state = None \<or> (\<exists>p rc. proc ready_state = Some p \<and> poll p = Some rc)"
    by simp
  show ?thesis using running_state_sel(1) p h a l s2 b ready_state_sel(1) by simp
qed

subsection \<open>The outcome of a job\<close>

lemma log_sel [simp]:
  "mode (log ts line st) = mode st" "message (log ts line st) = message st"
  "proc (log ts line st) = proc st" "env (log ts line st) = env st"
  "flags (log ts line st) = flags st"
  "logs (log ts line st) = py_last_n 500 (logs st @ [''['' @ ts @ ''] '' @ line])"
  by (simp_all add: log_def)

lemma set_mode_sel [simp]:
  "mode (set_mode m msg st) = m"
  "msg \<noteq> [] \<Longrightarrow> message (set_mode m msg st) = msg"
  "logs (set_mode m msg st) = logs st" "proc (set_mode m msg st) = proc st"
  by (simp_all add: set_mode_def)

lemma drain_sel [simp]:
  "mode (drain out st) = mode st" "message (drain out st) = message st"
  "proc (drain out st) = proc st"
  by (induction out st rule: drain.induct) simp_all

lemma drain_logs_only:
  "logs st = logs st' \<Longrightarrow> logs (drain out st) = logs (drain out st')"
  by (induction out st arbitrary: st' rule: drain.induct) simp_all

lemma drain_logs_proc [simp]: "logs (drain out (st\<lparr>proc := p\<rparr>)) = logs (drain out st)"
  by (rule drain_logs_only) simp

lemma run_job_exit_zero:
  "mode (run_job sp j (Spawned out (Exited 0)) ts st) = Ok"
  "message (run_job sp j (Spawned out (Exited 0)) ts st) = ''Completed successfully''"
  "logs (run_job sp j (Spawned out (Exited 0)) ts st) =
     py_last_n 500 (logs (drain out st) @ [''['' @ ts @ ''] Job finished: OK''])"
  by (simp_all add: run_job_def Let_def)

lemma run_job_exit_nonzero:
  assumes "rc \<noteq> 0"
  shows "mode (run_job sp j (Spawned out (Exited rc)) ts st) = Neutral"
  "message (run_job sp j (Spawned out (Exited rc)) ts st) =
     ''Finished with errors (rc='' @ str_int rc @ '')''"
  "logs (run_job sp j (Spawned out (Exited rc)) ts st) =
     py_last_n 500 (logs (drain out st) @ [''['' @ ts @ ''] Job finished: ERR rc='' @ str_int rc])"
  using assms by (simp_all add: run_job_def Let_def)

lemma run_job_not_found:
  "mode (run_job sp j NotFound ts st) = Neutral"
  "message (run_job sp j NotFound ts st) = ''Shell script not found. Check SCRIPT_PATH.''"
  "logs (run_job sp j NotFound ts st) =
     py_last_n 500 (logs st @ [''['' @ ts @ ''] ERROR: '' @ sp @ '' not found''])"
  by (simp_all add: run_job_def)

lemma run_job_spawn_fault:
  "mode (run_job sp j (SpawnFault e) ts st) = Neutral"
  "message (run_job sp j (SpawnFault e) ts st) = ''Exception: '' @ e"
  "logs (run_job sp j (SpawnFault e) ts st) =
     py_last_n 500 (logs st @ [''['' @ ts @ ''] Exception: '' @ e])"
  by (simp_all add: run_job_def)

lemma run_job_read_fault:
  "mode (run_job sp j (Spawned out (ReadFault e)) ts st) = Neutral"
  "message (run_job sp j (Spawned out (ReadFault e)) ts st) = ''Exception: '' @ e"
  "logs (run_job sp j (Spawned out (ReadFault e)) ts st) =
     py_last_n 500 (logs (drain out st) @ [''['' @ ts @ ''] Exception: '' @ e])"
  by (simp_all add: run_job_def Let_def)

text \<open>
  Claim C4. The worker thread, run to its end, leaves one outcome. Exit code 0: mode
  \<open>Ok\<close>, message \<open>Completed successfully\<close>. Any other exit code \<open>rc\<close>: mode
  \<open>Neutral\<close>, and the message holds \<open>str(rc)\<close>. \<open>FileNotFoundError\<close> from
  \<open>Popen\<close>: mode \<open>Neutral\<close>, the message names \<open>SCRIPT_PATH\<close>. Any other
  exception, at the launch or while the stream is read: mode \<open>Neutral\<close>, the message is
  \<open>Exception:\<close> and the exception's text. In each case the log is the log as the
  stream left it with one more line, the summary, under the bound of 500.
\<close>

theorem job_outcomes:
  "(mode (run_job sp j (Spawned out (Exited 0)) ts st) = Ok
      \<and> message (run_job sp j (Spawned out (Exited 0)) ts st) = ''Completed successfully''
      \<and> logs (run_job sp j (Spawned out (Exited 0)) ts st) =
          py_last_n 500 (logs (drain out st) @ [''['' @ ts @ ''] Job finished: OK'']))
   \<and> (rc \<noteq> 0 \<longrightarrow>
        mode (run_job sp j (Spawned out (Exited rc)) ts st) = Neutral
      \<and> message (run_job sp j (Spawned out (Exited rc)) ts st) =
          ''Finished with errors (rc='' @ str_int rc @ '')''
      \<and> logs (run_job sp j (Spawned out (Exited rc)) ts st) =
          py_last_n 500 (logs (drain out st)
            @ [''['' @ ts @ ''] Job finished: ERR rc='' @ str_int rc]))
   \<and> (mode (run_job sp j NotFound ts st) = Neutral
      \<and> message (run_job sp j NotFound ts st) = ''Shell script not found. Check SCRIPT_PATH.''
      \<and> logs (run_job sp j NotFound ts st) =
          py_last_n 500 (logs st @ [''['' @ ts @ ''] ERROR: '' @ sp @ '' not found'']))
   \<and> (mode (run_job sp j (SpawnFault e) ts st) = Neutral
      \<and> message (run_job sp j (SpawnFault e) ts st) = ''Exception: '' @ e
      \<and> logs (run_job sp j (SpawnFault e) ts st) =
          py_last_n 500 (logs st @ [''['' @ ts @ ''] Exception: '' @ e]))
   \<and> (mode (run_job sp j (Spawned out (ReadFault e)) ts st) = Neutral
      \<and> message (run_job sp j (Spawned out (ReadFault e)) ts st) = ''Exception: '' @ e
      \<and> logs (run_job sp j (Spawned out (ReadFault e)) ts st) =
          py_last_n 500 (logs (drain out st) @ [''['' @ ts @ ''] Exception: '' @ e]))"
  using run_job_exit_zero [of sp j out ts st] run_job_exit_nonzero [of rc sp j out ts st]
    run_job_not_found [of sp j ts st] run_job_spawn_fault [of sp j e ts st]
    run_job_read_fault [of sp j out e ts st]
  by blast

lemma str_int_2: "str_int 2 = ''2''"
  by code_simp

lemma drain_two_lines:
  "logs (drain [(''12:00:01'', ''A\<newline>''), (''12:00:02'', ''B\<newline>'')] ready_state) =
     [''[12:00:01] A'', ''[12:00:02] B'']"
  by (simp add: rstrip_nl_def py_last_n_def ready_state_def)

theorem job_outcomes_witness:
  "(2::int) \<noteq> 0
   \<and> mode (run_job ''nexsoft_update_qc.sh'' \<lparr>job_args = [''nexsoft_update_qc.sh''], job_env = Map.empty\<rparr>
        (Spawned [(''12:00:01'', ''A\<newline>''), (''12:00:02'', ''B\<newline>'')] (Exited 2))
        ''12:00:03'' ready_state) = Neutral
   \<and> message (run_job ''nexsoft_update_qc.sh'' \<lparr>job_args = [''nexsoft_update_qc.sh''], job_env = Map.empty\<rparr>
        (Spawned [(''12:00:01'', ''A\<newline>''), (''12:00:02'', ''B\<newline>'')] (Exited 2))
        ''12:00:03'' ready_state) = ''Finished with errors (rc=2)''
   \<and> logs (run_job ''nexsoft_update_qc.sh'' \<lparr>job_args = [''nexsoft_update_qc.sh''], job_env = Map.empty\<rparr>
        (Spawned [(''12:00:01'', ''A\<newline>''), (''12:00:02'', ''B\<newline>'')] (Exited 2))
        ''12:00:03'' ready_state) =
       [''[12:00:01] A'', ''[12:00:02] B'', ''[12:00:03] Job finished: ERR rc=2'']
   \<and> mode (run_job ''nexsoft_update_qc.sh'' \<lparr>job_args = [''nexsoft_update_qc.sh''], job_env = Map.empty\<rparr>
        (Spawned [(''12:00:01'', ''A\<newline>''), (''12:00:02'', ''B\<newline>'')] (Exited 0))
        ''12:00:03'' ready_state) = Ok
   \<and> logs (run_job ''nexsoft_update_qc.sh'' \<lparr>job_args = [''nexsoft_update_qc.sh''], job_env = Map.empty\<rparr>
        (Spawned [(''12:00:01'', ''A\<newline>''), (''12:00:02'', ''B\<newline>'')] (Exited 0))
        ''12:00:03'' ready_state) =
       [''[12:00:01] A'', ''[12:00:02] B'', ''[12:00:03] Job finished: OK'']"
  using job_outcomes [of "''nexsoft_update_qc.sh''"
      "\<lparr>job_args = [''nexsoft_update_qc.sh''], job_env = Map.empty\<rparr>"
      "[(''12:00:01'', ''A\<newline>''), (''12:00:02'', ''B\<newline>'')]" "''12:00:03''" ready_state 2 "[]"]
  by (simp add: str_int_2 drain_two_lines py_last_n_def del: drain.simps)

subsection \<open>Key events\<close>

lemma handle_input_editing:
  assumes "edit_mode st"
  shows "handle_input st ev =
     (if ch ev = - 1 then Inr (None, st)
      else if ch ev = 27 then Inr (None, st\<lparr>edit_mode := False\<rparr>)
      else if ch ev = 10 \<or> ch ev = 13 then
        and_then (py_item fields_order (field_index st)) (\<lambda>(key, label).
          Inr (None, st\<lparr>env := (env st)(key \<mapsto> input_buffer st), edit_mode := False\<rparr>))
      else if ch ev = KEY_BACKSPACE \<or> ch ev = 127 \<or> ch ev = 8 then
        Inr (None, st\<lparr>input_buffer := butlast (input_buffer st)\<rparr>)
      else if 32 \<le> ch ev \<and> ch ev \<le> 126 then
        Inr (None, st\<lparr>input_buffer := input_buffer st @ [char_of (ch ev)]\<rparr>)
      else Inr (None, st))"
  using assms by (simp add: handle_input_def Let_def)

lemma same_buffer: "\<exists>buf. st = st\<lparr>input_buffer := buf\<rparr>"
  by (rule exI [of _ "input_buffer st"]) simp

lemma handle_input_typing:
  assumes "edit_mode st" "ch ev \<noteq> 27" "ch ev \<noteq> 10" "ch ev \<noteq> 13"
  shows "\<exists>buf. handle_input st ev = Inr (None, st\<lparr>input_buffer := buf\<rparr>)"
proof -
  have "handle_input st ev = Inr (None, st)
      \<or> handle_input st ev = Inr (None, st\<lparr>input_buffer := butlast (input_buffer st)\<rparr>)
      \<or> handle_input st ev = Inr (None, st\<lparr>input_buffer := input_buffer st @ [char_of (ch ev)]\<rparr>)"
    using assms by (simp add: handle_input_editing)
  then show ?thesis
  proof (elim disjE)
    assume "handle_input st ev = Inr (None, st)"
    then show ?thesis using same_buffer [of st] by auto
  next
    assume "handle_input st ev = Inr (None, st\<lparr>input_buffer := butlast (input_buffer st)\<rparr>)"
    then show ?thesis by blast
  next
    assume "handle_input st ev = Inr (None, st\<lparr>input_buffer := input_buffer st @ [char_of (ch ev)]\<rparr>)"
    then show ?thesis by blast
  qed
qed

lemma handle_input_up:
  assumes "\<not> edit_mode st" "ch ev = KEY_UP \<or> ch ev = ord_k"
  shows "handle_input st ev = Inr (None, st\<lparr>field_index := (field_index st - 1) mod 23\<rparr>)"
  using assms(2) by (elim disjE) (simp_all add: handle_input_def key_defs assms(1))

lemma handle_input_down:
  assumes "\<not> edit_mode st" "ch ev = KEY_DOWN \<or> ch ev = ord_j"
  shows "handle_input st ev = Inr (None, st\<lparr>field_index := (field_index st + 1) mod 23\<rparr>)"
  using assms(2) by (elim disjE) (simp_all add: handle_input_def key_defs assms(1))

lemma handle_input_nav_editing:
  assumes "edit_mode st" "ch ev = KEY_UP \<or> ch ev = ord_k \<or> ch ev = KEY_DOWN \<or> ch ev = ord_j"
  shows "\<exists>buf. handle_input st ev = Inr (None, st\<lparr>input_buffer := buf\<rparr>)"
proof (rule handle_input_typing [OF assms(1)])
  show "ch ev \<noteq> 27" "ch ev \<noteq> 10" "ch ev \<noteq> 13"
    using assms(2) by (auto simp add: key_defs)
qed

lemma main_step_None:
  "handle_input st ev = Inr (None, st1) \<Longrightarrow> main_step sp os st ev = Inr (False, st1, None)"
  by (simp add: main_step_def and_then_def)

lemma main_step_nav:
  assumes "0 \<le> field_index st" "field_index st < 23"
    and "ch ev = KEY_UP \<or> ch ev = ord_k \<or> ch ev = KEY_DOWN \<or> ch ev = ord_j"
  shows "\<exists>st1. main_step sp os st ev = Inr (False, st1, None)
           \<and> 0 \<le> field_index st1 \<and> field_index st1 < 23"
proof (cases "edit_mode st")
  case True
  from handle_input_nav_editing [OF True assms(3)] obtain buf where
    "handle_input st ev = Inr (None, st\<lparr>input_buffer := buf\<rparr>)" by blast
  then have "main_step sp os st ev = Inr (False, st\<lparr>input_buffer := buf\<rparr>, None)"
    by (rule main_step_None)
  then show ?thesis using assms(1,2) by simp
next
  case False
  from assms(3) consider "ch ev = KEY_UP \<or> ch ev = ord_k" | "ch ev = KEY_DOWN \<or> ch ev = ord_j"
    by blast
  then show ?thesis
  proof cases
    case 1
    from main_step_None [OF handle_input_up [OF False 1]] show ?thesis by simp
  next
    case 2
    from main_step_None [OF handle_input_down [OF False 2]] show ?thesis by simp
  qed
qed

lemma main_loop_nav:
  assumes "0 \<le> field_index st" "field_index st < 23"
    and "\<forall>e\<in>set evs. ch e = KEY_UP \<or> ch e = ord_k \<or> ch e = KEY_DOWN \<or> ch e = ord_j"
  shows "\<exists>st1. main_loop sp os st evs = Inr (False, st1, [])
           \<and> 0 \<le> field_index st1 \<and> field_index st1 < 23"
  using assms
proof (induction evs arbitrary: st)
  case Nil
  then show ?case by simp
next
  case (Cons ev evs)
  from Cons.prems(3) have k: "ch ev = KEY_UP \<or> ch ev = ord_k \<or> ch ev = KEY_DOWN \<or> ch ev = ord_j"
    by simp
  from main_step_nav [OF Cons.prems(1,2) k] obtain st0 where
    s: "main_step sp os st ev = Inr (False, st0, None)" and
    r: "0 \<le> field_index st0" "field_index st0 < 23"
    by blast
  from Cons.prems(3) have
    "\<forall>e\<in>set evs. ch e = KEY_UP \<or> ch e = ord_k \<or> ch e = KEY_DOWN \<or> ch e = ord_j"
    by simp
  from Cons.IH [OF r this] obtain st1 where
    "main_loop sp os st0 evs = Inr (False, st1, [])" "0 \<le> field_index st1" "field_index st1 < 23"
    by blast
  then show ?case using s by (simp add: and_then_def)
qed

text \<open>
  Claim C9. From a state whose selection is within the items (the fields, the flags and
  the Start action: 23 of them), every sequence of up and down keys (the arrows, \<open>k\<close>
  and \<open>j\<close>) runs through the main loop without an exception, a quit or a started
  thread, and leaves the selection within the items. Up on item 0 selects the last item,
  down on the last item selects item 0.
\<close>

theorem selection_stays_in_range:
  "(0 \<le> field_index st \<and> field_index st < int (length fields_order + length toggle_order + 1)
      \<and> (\<forall>e\<in>set evs. ch e = KEY_UP \<or> ch e = ord_k \<or> ch e = KEY_DOWN \<or> ch e = ord_j)
     \<longrightarrow> (\<exists>st1. main_loop sp os st evs = Inr (False, st1, [])
           \<and> 0 \<le> field_index st1
           \<and> field_index st1 < int (length fields_order + length toggle_order + 1)))
   \<and> (\<not> edit_mode st \<and> field_index st = 0 \<and> (ch ev = KEY_UP \<or> ch ev = ord_k)
     \<longrightarrow> handle_input st ev =
          Inr (None, st\<lparr>field_index := int (length fields_order + length toggle_order)\<rparr>))
   \<and> (\<not> edit_mode st \<and> field_index st = int (length fields_order + length toggle_order)
        \<and> (ch ev = KEY_DOWN \<or> ch ev = ord_j)
     \<longrightarrow> handle_input st ev = Inr (None, st\<lparr>field_index := 0\<rparr>))"
proof (intro conjI impI)
  assume "0 \<le> field_index st \<and> field_index st < int (length fields_order + length toggle_order + 1)
      \<and> (\<forall>e\<in>set evs. ch e = KEY_UP \<or> ch e = ord_k \<or> ch e = KEY_DOWN \<or> ch e = ord_j)"
  then have "0 \<le> field_index st" "field_index st < 23"
    "\<forall>e\<in>set evs. ch e = KEY_UP \<or> ch e = ord_k \<or> ch e = KEY_DOWN \<or> ch e = ord_j"
    by simp_all
  from main_loop_nav [OF this]
  show "\<exists>st1. main_loop sp os st evs = Inr (False, st1, [])
           \<and> 0 \<le> field_index st1
           \<and> field_index st1 < int (length fields_order + length toggle_order + 1)"
    by simp
next
  assume "\<not> edit_mode st \<and> field_index st = 0 \<and> (ch ev = KEY_UP \<or> ch ev = ord_k)"
  then show "handle_input st ev =
          Inr (None, st\<lparr>field_index := int (length fields_order + length toggle_order)\<rparr>)"
    using handle_input_up [of st ev] by simp
next
  assume "\<not> edit_mode st \<and> field_index st = int (length fields_order + length toggle_order)
        \<and> (ch ev = KEY_DOWN \<or> ch ev = ord_j)"
  then show "handle_input st ev = Inr (None, st\<lparr>field_index := 0\<rparr>)"
    using handle_input_down [of st ev] by simp
qed


theorem selection_stays_in_range_witness:
  "0 \<le> field_index ready_state
   \<and> field_index ready_state < int (length fields_order + length toggle_order + 1)
   \<and> (\<exists>st1. main_loop ''nexsoft_update_qc.sh'' Map.empty ready_state
               [key KEY_UP, key ord_k, key KEY_DOWN, key ord_j, key ord_j] = Inr (False, st1, [])
           \<and> 0 \<le> field_index st1 \<and> field_index st1 < 23)
   \<and> handle_input ready_state (key KEY_UP) = Inr (None, ready_state\<lparr>field_index := 22\<rparr>)
   \<and> handle_input (ready_state\<lparr>field_index := 22\<rparr>) (key KEY_DOWN) =
       Inr (None, ready_state\<lparr>field_index := 0\<rparr>)"
proof -
  have r: "field_index ready_state = 0" "\<not> edit_mode ready_state"
    by (simp_all add: ready_state_def)
  have a: "\<exists>st1. main_loop ''nexsoft_update_qc.sh'' Map.empty ready_state
               [key KEY_UP, key ord_k, key KEY_DOWN, key ord_j, key ord_j] = Inr (False, st1, [])
           \<and> 0 \<le> field_index st1 \<and> field_index st1 < 23"
    using selection_stays_in_range [of ready_state
        "[key KEY_UP, key ord_k, key KEY_DOWN, key ord_j, key ord_j]"
        "''nexsoft_update_qc.sh''" Map.empty]
    by (simp add: r)
  have b: "handle_input ready_state (key KEY_UP) = Inr (None, ready_state\<lparr>field_index := 22\<rparr>)"
    using selection_stays_in_range [of ready_state "[]" "''nexsoft_update_qc.sh''" Map.empty
        "key KEY_UP"]
    by (simp add: r)
  have c: "handle_input (ready_state\<lparr>field_index := 22\<rparr>) (key KEY_DOWN) =
       Inr (None, ready_state\<lparr>field_index := 0\<rparr>)"
    using selection_stays_in_range [of "ready_state\<lparr>field_index := 22\<rparr>" "[]"
        "''nexsoft_update_qc.sh''" Map.empty "key KEY_DOWN"]
    by (simp add: r)
  show ?thesis using a b c by (simp add: r)
qed

text \<open>
  Claim C10 as stated fails: while a field is edited, the key \<open>t\<close> goes into the
  buffer and the theme stays as it was.
\<close>

theorem theme_toggle_while_editing:
  "handle_input (ready_state\<lparr>edit_mode := True\<rparr>) (key ord_t) =
     Inr (None, ready_state\<lparr>edit_mode := True, input_buffer := ''t''\<rparr>)
   \<and> theme_dark (ready_state\<lparr>edit_mode := True, input_buffer := ''t''\<rparr>) =
       theme_dark (ready_state\<lparr>edit_mode := True\<rparr>)"
proof -
  have "input_buffer ready_state = []" by (simp add: ready_state_def)
  moreover have "char_of (116 :: int) = CHR ''t''" by code_simp
  ultimately show ?thesis
    by (simp add: handle_input_editing key_defs)
qed

lemma handle_input_theme_navigating:
  assumes "\<not> edit_mode st" "ch ev = ord_t \<or> ch ev = ord_T"
  shows "handle_input st ev = Inr (None, st\<lparr>theme_dark := \<not> theme_dark st\<rparr>)"
  using assms(2) by (elim disjE) (simp_all add: handle_input_def key_defs assms(1))

lemma handle_input_theme_editing:
  assumes "edit_mode st" "ch ev = ord_t \<or> ch ev = ord_T"
  shows "handle_input st ev = Inr (None, st\<lparr>input_buffer := input_buffer st @ [char_of (ch ev)]\<rparr>)"
  using assms(2) by (elim disjE) (simp_all add: handle_input_editing key_defs assms(1))

lemma handle_input_quit_prompt:
  assumes "\<not> edit_mode st" "ch ev = ord_q \<or> ch ev = 27" "job_running st"
    "confirm_ch ev \<noteq> ord_y" "confirm_ch ev \<noteq> ord_Y"
  shows "handle_input st ev = Inr (None, st)"
  using assms(2,4,5)
  by (elim disjE) (simp_all add: handle_input_def key_defs confirm_quit_def assms(1,3))

text \<open>
  Claim C10, amended. Outside the edit mode \<open>t\<close> and \<open>T\<close> flip the theme and
  change nothing else. In the edit mode the key is appended to the buffer. At the quit
  prompt (a quit key while a job runs) it counts as any key but \<open>y\<close>: the state is
  unchanged and the loop goes on.
\<close>

theorem theme_toggle_only_when_navigating:
  "(\<not> edit_mode st \<and> (ch ev = ord_t \<or> ch ev = ord_T) \<longrightarrow>
      handle_input st ev = Inr (None, st\<lparr>theme_dark := \<not> theme_dark st\<rparr>))
   \<and> (edit_mode st \<and> (ch ev = ord_t \<or> ch ev = ord_T) \<longrightarrow>
      handle_input st ev = Inr (None, st\<lparr>input_buffer := input_buffer st @ [char_of (ch ev)]\<rparr>))
   \<and> (\<not> edit_mode st \<and> (ch ev = ord_q \<or> ch ev = 27) \<and> job_running st
        \<and> (confirm_ch ev = ord_t \<or> confirm_ch ev = ord_T) \<longrightarrow>
      handle_input st ev = Inr (None, st))"
proof (intro conjI impI)
  assume "\<not> edit_mode st \<and> (ch ev = ord_t \<or> ch ev = ord_T)"
  then show "handle_input st ev = Inr (None, st\<lparr>theme_dark := \<not> theme_dark st\<rparr>)"
    using handle_input_theme_navigating by blast
next
  assume "edit_mode st \<and> (ch ev = ord_t \<or> ch ev = ord_T)"
  then show "handle_input st ev = Inr (None, st\<lparr>input_buffer := input_buffer st @ [char_of (ch ev)]\<rparr>)"
    using handle_input_theme_editing by blast
next
  assume a: "\<not> edit_mode st \<and> (ch ev = ord_q \<or> ch ev = 27) \<and> job_running st
        \<and> (confirm_ch ev = ord_t \<or> confirm_ch ev = ord_T)"
  then have "confirm_ch ev \<noteq> ord_y" "confirm_ch ev \<noteq> ord_Y"
    by (auto simp add: key_defs)
  then show "handle_input st ev = Inr (None, st)"
    using a handle_input_quit_prompt by blast
qed

theorem theme_toggle_only_when_navigating_witness:
  "\<not> edit_mode ready_state
   \<and> handle_input ready_state (key ord_t) = Inr (None, ready_state\<lparr>theme_dark := False\<rparr>)
   \<and> handle_input (ready_state\<lparr>edit_mode := True\<rparr>) (key ord_T) =
       Inr (None, ready_state\<lparr>edit_mode := True, input_buffer := ''T''\<rparr>)
   \<and> job_running running_state
   \<and> handle_input running_state ((key ord_q)\<lparr>confirm_ch := ord_t\<rparr>) = Inr (None, running_state)"
proof -
  have r: "\<not> edit_mode ready_state" "theme_dark ready_state" "input_buffer ready_state = []"
    by (simp_all add: ready_state_def)
  have c: "char_of ord_T = CHR ''T''" unfolding ord_T_def by code_simp
  have j: "job_running running_state"
    by (simp add: job_running_def running_state_sel(1) poll_def)
  have 1: "handle_input ready_state (key ord_t) = Inr (None, ready_state\<lparr>theme_dark := False\<rparr>)"
    using theme_toggle_only_when_navigating [of ready_state "key ord_t"] by (simp add: r)
  have 2: "handle_input (ready_state\<lparr>edit_mode := True\<rparr>) (key ord_T) =
       Inr (None, ready_state\<lparr>edit_mode := True, input_buffer := ''T''\<rparr>)"
    using theme_toggle_only_when_navigating [of "ready_state\<lparr>edit_mode := True\<rparr>" "key ord_T"]
    by (simp add: r c)
  have 3: "handle_input running_state ((key ord_q)\<lparr>confirm_ch := ord_t\<rparr>) = Inr (None, running_state)"
    using theme_toggle_only_when_navigating [of running_state "(key ord_q)\<lparr>confirm_ch := ord_t\<rparr>"]
    by (simp add: j running_state_sel(2))
  show ?thesis using r(1) 1 2 j 3 by simp
qed

lemma main_loop_up:
  assumes "\<not> edit_mode st"
  shows "main_loop sp os st (key KEY_UP # evs) =
           main_loop sp os (st\<lparr>field_index := (field_index st - 1) mod 23\<rparr>) evs"
proof -
  have "main_step sp os st (key KEY_UP) =
          Inr (False, st\<lparr>field_index := (field_index st - 1) mod 23\<rparr>, None)"
    by (rule main_step_None) (rule handle_input_up, simp_all add: assms)
  then show ?thesis
    by (simp add: and_then_def split: sum.splits)
qed

lemma enter_on_flag_raises:
  assumes "\<not> edit_mode st" "12 \<le> field_index st" "field_index st < 22"
    and "ch ev = KEY_ENTER \<or> ch ev = 10 \<or> ch ev = 13"
  shows "handle_input st ev = Inl IndexError"
  using assms
  by (elim disjE) (simp_all add: handle_input_def key_defs py_item_def and_then_def)

lemma left_right_on_start_raises:
  assumes "\<not> edit_mode st" "field_index st = 22" "ch ev = KEY_LEFT \<or> ch ev = KEY_RIGHT"
  shows "handle_input st ev = Inl IndexError"
  using assms
  by (elim disjE) (simp_all add: handle_input_def key_defs py_item_def and_then_def)

text \<open>
  Claim C6 does not hold of the code. From the initial state, up twice selects the last
  flag; Enter there indexes \<open>fields_order\<close> at 21, and the \<open>IndexError\<close> leaves
  \<open>handle_input\<close> and the main loop. Up once selects the Start action; the right arrow
  there indexes \<open>toggle_order\<close> at 10, with the same end.
\<close>

theorem enter_on_flag_item_fails:
  "main_loop sp os (UIState_init os serial url) [key KEY_UP, key KEY_UP, key 10] = Inl IndexError
   \<and> main_loop sp os (UIState_init os serial url) [key KEY_UP, key KEY_RIGHT] = Inl IndexError"
proof -
  let ?st1 = "(UIState_init os serial url)\<lparr>field_index := 22\<rparr>"
  let ?st2 = "(UIState_init os serial url)\<lparr>field_index := 21\<rparr>"
  have 1: "handle_input ?st2 (key 10) = Inl IndexError"
    by (rule enter_on_flag_raises) simp_all
  have 2: "handle_input ?st1 (key KEY_RIGHT) = Inl IndexError"
    by (rule left_right_on_start_raises) simp_all
  have a: "main_loop sp os (UIState_init os serial url) [key KEY_UP, key KEY_UP, key 10] =
           main_loop sp os ?st2 [key 10]"
    by (simp add: main_loop_up del: main_loop.simps)
  have b: "main_loop sp os (UIState_init os serial url) [key KEY_UP, key KEY_RIGHT] =
           main_loop sp os ?st1 [key KEY_RIGHT]"
    by (simp add: main_loop_up del: main_loop.simps)
  show ?thesis
    unfolding a b by (simp add: 1 2 main_step_def and_then_def)
qed

text \<open>
  Claim C7 does not hold of the code on the Start action. From the initial state, up
  selects the Start action; the left arrow there indexes \<open>toggle_order\<close> at 10, and
  the \<open>IndexError\<close> leaves \<open>handle_input\<close> and the main loop.
\<close>

theorem left_on_start_action_fails:
  "main_loop sp os (UIState_init os serial url) [key KEY_UP, key KEY_LEFT] = Inl IndexError"
proof -
  let ?st1 = "(UIState_init os serial url)\<lparr>field_index := 22\<rparr>"
  have 2: "handle_input ?st1 (key KEY_LEFT) = Inl IndexError"
    by (rule left_right_on_start_raises) simp_all
  have b: "main_loop sp os (UIState_init os serial url) [key KEY_UP, key KEY_LEFT] =
           main_loop sp os ?st1 [key KEY_LEFT]"
    by (simp add: main_loop_up del: main_loop.simps)
  show ?thesis
    unfolding b by (simp add: 2 main_step_def and_then_def)
qed

subsection \<open>Editing a field\<close>

lemma py_item_field:
  assumes "0 \<le> i" "i < 12"
  shows "py_item fields_order i = Inr (fields_order ! nat i)"
  using assms by (simp add: py_item_def)

lemma enter_on_field:
  assumes "\<not> edit_mode st" "0 \<le> field_index st" "field_index st < 12"
    and "ch ev = KEY_ENTER \<or> ch ev = 10 \<or> ch ev = 13"
  shows "handle_input st ev =
     Inr (None, st\<lparr>input_buffer := dict_get (env st) (fst (fields_order ! nat (field_index st))) [],
                    edit_mode := True\<rparr>)"
  using assms
  by (elim disjE)
    (simp_all add: handle_input_def key_defs py_item_field and_then_def case_prod_beta)

lemma commit_edit:
  assumes "edit_mode st" "0 \<le> field_index st" "field_index st < 12"
    and "ch ev = 10 \<or> ch ev = 13"
  shows "handle_input st ev =
     Inr (None, st\<lparr>env := (env st)(fst (fields_order ! nat (field_index st)) \<mapsto> input_buffer st),
                    edit_mode := False\<rparr>)"
  using assms
  by (elim disjE) (simp_all add: handle_input_editing py_item_field and_then_def case_prod_beta)

lemma cancel_edit:
  assumes "edit_mode st" "ch ev = 27"
  shows "handle_input st ev = Inr (None, st\<lparr>edit_mode := False\<rparr>)"
  using assms by (simp add: handle_input_editing)

lemma and_then_triple:
  "and_then r (\<lambda>(q, st2, js). Inr (q, st2, js)) = r"
  by (simp add: and_then_def split: sum.splits)

lemma main_loop_None:
  assumes "handle_input st ev = Inr (None, st1)"
  shows "main_loop sp os st (ev # evs) = main_loop sp os st1 evs"
proof -
  have "main_step sp os st ev = Inr (False, st1, None)"
    using assms by (rule main_step_None)
  then show ?thesis by (simp add: and_then_def split: sum.splits)
qed

lemma main_loop_typing:
  assumes "edit_mode st" "\<forall>e\<in>set typed. ch e \<noteq> 27 \<and> ch e \<noteq> 10 \<and> ch e \<noteq> 13"
  shows "\<exists>buf. \<forall>rest. main_loop sp os st (typed @ rest) =
                        main_loop sp os (st\<lparr>input_buffer := buf\<rparr>) rest"
  using assms
proof (induction typed arbitrary: st)
  case Nil
  show ?case by (rule exI [of _ "input_buffer st"]) simp
next
  case (Cons e typed)
  from Cons.prems(2) have k: "ch e \<noteq> 27" "ch e \<noteq> 10" "ch e \<noteq> 13" by simp_all
  from handle_input_typing [OF Cons.prems(1) k] obtain b where
    h: "handle_input st e = Inr (None, st\<lparr>input_buffer := b\<rparr>)" by blast
  have e: "edit_mode (st\<lparr>input_buffer := b\<rparr>)" using Cons.prems(1) by simp
  from Cons.prems(2) have "\<forall>e\<in>set typed. ch e \<noteq> 27 \<and> ch e \<noteq> 10 \<and> ch e \<noteq> 13" by simp
  from Cons.IH [OF e this] obtain buf where
    i: "\<And>rest. main_loop sp os (st\<lparr>input_buffer := b\<rparr>) (typed @ rest) =
     main_loop sp os (st\<lparr>input_buffer := b, input_buffer := buf\<rparr>) rest" by blast
  have "\<forall>rest. main_loop sp os st ((e # typed) @ rest) =
          main_loop sp os (st\<lparr>input_buffer := buf\<rparr>) rest"
    using main_loop_None [OF h, of sp os] i by simp
  then show ?case by blast
qed

lemma edit_session:
  assumes "\<not> edit_mode st" "0 \<le> field_index st" "field_index st < 12"
    and "ch e0 = KEY_ENTER \<or> ch e0 = 10 \<or> ch e0 = 13"
    and "\<forall>e\<in>set typed. ch e \<noteq> 27 \<and> ch e \<noteq> 10 \<and> ch e \<noteq> 13"
  shows "\<exists>buf. main_loop sp os st (e0 # typed) =
             Inr (False, st\<lparr>input_buffer := buf, edit_mode := True\<rparr>, [])
     \<and> (ch e1 = 10 \<or> ch e1 = 13 \<longrightarrow>
          main_loop sp os st (e0 # typed @ [e1]) =
            Inr (False,
                 st\<lparr>input_buffer := buf,
                    env := (env st)(fst (fields_order ! nat (field_index st)) \<mapsto> buf),
                    edit_mode := False\<rparr>, []))
     \<and> (ch e1 = 27 \<longrightarrow>
          main_loop sp os st (e0 # typed @ [e1]) =
            Inr (False, st\<lparr>input_buffer := buf, edit_mode := False\<rparr>, []))"
proof -
  let ?b0 = "dict_get (env st) (fst (fields_order ! nat (field_index st))) []"
  let ?st0 = "st\<lparr>input_buffer := ?b0, edit_mode := True\<rparr>"
  have h0: "handle_input st e0 = Inr (None, ?st0)"
    by (rule enter_on_field [OF assms(1-4)])
  have e0: "edit_mode ?st0" by simp
  from main_loop_typing [OF e0 assms(5), of sp os] obtain buf where
    t0: "\<forall>rest. main_loop sp os ?st0 (typed @ rest) =
                main_loop sp os (?st0\<lparr>input_buffer := buf\<rparr>) rest"
    by blast
  let ?st1 = "st\<lparr>input_buffer := buf, edit_mode := True\<rparr>"
  have t: "main_loop sp os ?st0 (typed @ rest) = main_loop sp os ?st1 rest" for rest
  proof -
    have "main_loop sp os ?st0 (typed @ rest) =
          main_loop sp os (?st0\<lparr>input_buffer := buf\<rparr>) rest"
      using t0 by blast
    also have "?st0\<lparr>input_buffer := buf\<rparr> = ?st1" by simp
    finally show ?thesis .
  qed
  have s: "\<And>rest. main_loop sp os st (e0 # typed @ rest) = main_loop sp os ?st1 rest"
    using main_loop_None [OF h0, of sp os] t by simp
  have 1: "main_loop sp os st (e0 # typed) = Inr (False, ?st1, [])"
    using s [of "[]"] by simp
  have 2: "main_loop sp os st (e0 # typed @ [e1]) =
            Inr (False,
                 st\<lparr>input_buffer := buf,
                    env := (env st)(fst (fields_order ! nat (field_index st)) \<mapsto> buf),
                    edit_mode := False\<rparr>, [])" if c: "ch e1 = 10 \<or> ch e1 = 13"
  proof -
    have "handle_input ?st1 e1 =
       Inr (None, ?st1\<lparr>env := (env ?st1)(fst (fields_order ! nat (field_index ?st1)) \<mapsto> input_buffer ?st1),
                    edit_mode := False\<rparr>)"
      by (rule commit_edit) (use assms(2,3) c in simp_all)
    from main_loop_None [OF this, of sp os "[]"] show ?thesis
      unfolding s [of "[e1]"] by simp
  qed
  have 3: "main_loop sp os st (e0 # typed @ [e1]) =
            Inr (False, st\<lparr>input_buffer := buf, edit_mode := False\<rparr>, [])" if c: "ch e1 = 27"
  proof -
    have "handle_input ?st1 e1 = Inr (None, ?st1\<lparr>edit_mode := False\<rparr>)"
      by (rule cancel_edit) (use c in simp_all)
    from main_loop_None [OF this, of sp os "[]"] show ?thesis
      unfolding s [of "[e1]"] by simp
  qed
  show ?thesis using 1 2 3 by blast
qed

text \<open>
  Claim C8. In the edit mode on a field item, Enter (10 or 13) stores the buffer as it
  is at that moment under the key of the selected field and leaves the edit mode; Escape
  leaves the edit mode and changes nothing else. For a whole session (Enter on a field
  item while navigating, then any keys but Enter and Escape, then the closing key) the
  main loop runs without exception, quit or started thread: after Enter the state is
  the one before the session except for the buffer and the field, which holds the
  buffer; after Escape it is the one before the session except for the buffer, so every
  field keeps its value.
\<close>

theorem edit_commit_and_cancel:
  "(edit_mode st \<and> 0 \<le> field_index st \<and> field_index st < int (length fields_order) \<longrightarrow>
      (ch ev = 10 \<or> ch ev = 13 \<longrightarrow>
         handle_input st ev =
           Inr (None,
                st\<lparr>env := (env st)(fst (fields_order ! nat (field_index st)) \<mapsto> input_buffer st),
                   edit_mode := False\<rparr>))
      \<and> (ch ev = 27 \<longrightarrow> handle_input st ev = Inr (None, st\<lparr>edit_mode := False\<rparr>)))
   \<and> (\<not> edit_mode st \<and> 0 \<le> field_index st \<and> field_index st < int (length fields_order)
        \<and> (ch e0 = KEY_ENTER \<or> ch e0 = 10 \<or> ch e0 = 13)
        \<and> (\<forall>e\<in>set typed. ch e \<noteq> 27 \<and> ch e \<noteq> 10 \<and> ch e \<noteq> 13) \<longrightarrow>
      (\<exists>buf. main_loop sp os st (e0 # typed) =
                Inr (False, st\<lparr>input_buffer := buf, edit_mode := True\<rparr>, [])
         \<and> (ch e1 = 10 \<or> ch e1 = 13 \<longrightarrow>
              main_loop sp os st (e0 # typed @ [e1]) =
                Inr (False,
                     st\<lparr>input_buffer := buf,
                        env := (env st)(fst (fields_order ! nat (field_index st)) \<mapsto> buf),
                        edit_mode := False\<rparr>, []))
         \<and> (ch e1 = 27 \<longrightarrow>
              main_loop sp os st (e0 # typed @ [e1]) =
                Inr (False, st\<lparr>input_buffer := buf, edit_mode := False\<rparr>, []))))"
proof (intro conjI impI)
  assume "edit_mode st \<and> 0 \<le> field_index st \<and> field_index st < int (length fields_order)"
    and "ch ev = 10 \<or> ch ev = 13"
  then show "handle_input st ev =
           Inr (None,
                st\<lparr>env := (env st)(fst (fields_order ! nat (field_index st)) \<mapsto> input_buffer st),
                   edit_mode := False\<rparr>)"
    using commit_edit [of st ev] by simp
next
  assume "edit_mode st \<and> 0 \<le> field_index st \<and> field_index st < int (length fields_order)"
    and "ch ev = 27"
  then show "handle_input st ev = Inr (None, st\<lparr>edit_mode := False\<rparr>)"
    using cancel_edit [of st ev] by simp
next
  assume "\<not> edit_mode st \<and> 0 \<le> field_index st \<and> field_index st < int (length fields_order)
        \<and> (ch e0 = KEY_ENTER \<or> ch e0 = 10 \<or> ch e0 = 13)
        \<and> (\<forall>e\<in>set typed. ch e \<noteq> 27 \<and> ch e \<noteq> 10 \<and> ch e \<noteq> 13)"
  then have a: "\<not> edit_mode st" "0 \<le> field_index st" "field_index st < 12"
    "ch e0 = KEY_ENTER \<or> ch e0 = 10 \<or> ch e0 = 13"
    "\<forall>e\<in>set typed. ch e \<noteq> 27 \<and> ch e \<noteq> 10 \<and> ch e \<noteq> 13"
    by simp_all
  show "\<exists>buf. main_loop sp os st (e0 # typed) =
                Inr (False, st\<lparr>input_buffer := buf, edit_mode := True\<rparr>, [])
         \<and> (ch e1 = 10 \<or> ch e1 = 13 \<longrightarrow>
              main_loop sp os st (e0 # typed @ [e1]) =
                Inr (False,
                     st\<lparr>input_buffer := buf,
                        env := (env st)(fst (fields_order ! nat (field_index st)) \<mapsto> buf),
                        edit_mode := False\<rparr>, []))
         \<and> (ch e1 = 27 \<longrightarrow>
              main_loop sp os st (e0 # typed @ [e1]) =
                Inr (False, st\<lparr>input_buffer := buf, edit_mode := False\<rparr>, []))"
    by (rule edit_session [OF a])
qed


lemma ready_url: "env ready_state ''DOWNLOAD_URL'' = Some []"
  by (simp add: ready_state_def UIState_init_def Let_def env_defaults_def dict_get_def falsy_get_def)

lemma ready_nav: "\<not> edit_mode ready_state" "field_index ready_state = 0"
  "input_buffer ready_state = []"
  by (simp_all add: ready_state_def)

lemma first_field: "fst (fields_order ! 0) = ''DOWNLOAD_URL''"
  by (simp add: fields_order_def)

lemma typed_chars: "char_of (104 :: int) = CHR ''h''" "char_of (105 :: int) = CHR ''i''"
  by code_simp+

lemma typing_h_i_backspace:
  "main_loop sp os ready_state [key 10, key 104, key 105, key 127] =
     Inr (False, ready_state\<lparr>input_buffer := ''h'', edit_mode := True\<rparr>, [])"
proof -
  have 0: "handle_input ready_state (key 10) =
             Inr (None, ready_state\<lparr>input_buffer := [], edit_mode := True\<rparr>)"
    using enter_on_field [of ready_state "key 10"]
    by (simp add: ready_nav first_field dict_get_def ready_url)
  have 1: "handle_input (ready_state\<lparr>input_buffer := [], edit_mode := True\<rparr>) (key 104) =
             Inr (None, ready_state\<lparr>input_buffer := ''h'', edit_mode := True\<rparr>)"
    by (simp add: handle_input_editing key_defs typed_chars)
  have 2: "handle_input (ready_state\<lparr>input_buffer := ''h'', edit_mode := True\<rparr>) (key 105) =
             Inr (None, ready_state\<lparr>input_buffer := ''hi'', edit_mode := True\<rparr>)"
    by (simp add: handle_input_editing key_defs typed_chars)
  have 3: "handle_input (ready_state\<lparr>input_buffer := ''hi'', edit_mode := True\<rparr>) (key 127) =
             Inr (None, ready_state\<lparr>input_buffer := ''h'', edit_mode := True\<rparr>)"
    by (simp add: handle_input_editing key_defs)
  have "main_loop sp os ready_state [key 10, key 104, key 105, key 127] =
        main_loop sp os (ready_state\<lparr>input_buffer := [], edit_mode := True\<rparr>)
          [key 104, key 105, key 127]"
    by (rule main_loop_None [OF 0])
  also have "\<dots> = main_loop sp os (ready_state\<lparr>input_buffer := ''h'', edit_mode := True\<rparr>)
          [key 105, key 127]"
    by (rule main_loop_None [OF 1])
  also have "\<dots> = main_loop sp os (ready_state\<lparr>input_buffer := ''hi'', edit_mode := True\<rparr>)
          [key 127]"
    by (rule main_loop_None [OF 2])
  also have "\<dots> = main_loop sp os (ready_state\<lparr>input_buffer := ''h'', edit_mode := True\<rparr>) []"
    by (rule main_loop_None [OF 3])
  finally show ?thesis by simp
qed

theorem edit_commit_and_cancel_witness:
  "\<not> edit_mode ready_state \<and> field_index ready_state = 0
   \<and> main_loop ''nexsoft_update_qc.sh'' Map.empty ready_state
        [key 10, key 104, key 105, key 127, key 13] =
       Inr (False,
            ready_state\<lparr>input_buffer := ''h'',
                         env := (env ready_state)(''DOWNLOAD_URL'' \<mapsto> ''h''),
                         edit_mode := False\<rparr>, [])
   \<and> main_loop ''nexsoft_update_qc.sh'' Map.empty ready_state
        [key 10, key 104, key 105, key 127, key 27] =
       Inr (False, ready_state\<lparr>input_buffer := ''h'', edit_mode := False\<rparr>, [])
   \<and> handle_input (ready_state\<lparr>input_buffer := ''h'', edit_mode := True\<rparr>) (key 13) =
       Inr (None,
            ready_state\<lparr>input_buffer := ''h'',
                         env := (env ready_state)(''DOWNLOAD_URL'' \<mapsto> ''h''),
                         edit_mode := False\<rparr>)
   \<and> handle_input (ready_state\<lparr>input_buffer := ''h'', edit_mode := True\<rparr>) (key 27) =
       Inr (None, ready_state\<lparr>input_buffer := ''h'', edit_mode := False\<rparr>)"
proof -
  let ?sp = "''nexsoft_update_qc.sh''"
  let ?typed = "[key 104, key 105, key 127]"
  let ?ed = "ready_state\<lparr>input_buffer := ''h'', edit_mode := True\<rparr>"
  have ks: "\<forall>e\<in>set ?typed. ch e \<noteq> 27 \<and> ch e \<noteq> 10 \<and> ch e \<noteq> 13"
    by simp
  have t: "main_loop ?sp Map.empty ready_state (key 10 # ?typed) = Inr (False, ?ed, [])"
    by (rule typing_h_i_backspace)
  have same: "buf = ''h''"
    if "main_loop ?sp Map.empty ready_state (key 10 # ?typed) =
          Inr (False, ready_state\<lparr>input_buffer := buf, edit_mode := True\<rparr>, [])" for buf
  proof -
    from that t have "ready_state\<lparr>input_buffer := buf, edit_mode := True\<rparr> = ?ed" by simp
    then have "input_buffer (ready_state\<lparr>input_buffer := buf, edit_mode := True\<rparr>) =
               input_buffer ?ed" by (rule arg_cong)
    then show ?thesis by simp
  qed
  have H: "\<not> edit_mode ready_state \<and> 0 \<le> field_index ready_state
        \<and> field_index ready_state < int (length fields_order)
        \<and> (ch (key 10) = KEY_ENTER \<or> ch (key 10) = 10 \<or> ch (key 10) = 13)
        \<and> (\<forall>e\<in>set ?typed. ch e \<noteq> 27 \<and> ch e \<noteq> 10 \<and> ch e \<noteq> 13)"
    using ks by (simp add: ready_nav)
  from edit_commit_and_cancel [where st = ready_state and ?e0.0 = "key 10" and typed = ?typed
        and sp = ?sp and os = Map.empty and ?e1.0 = "key 13", THEN conjunct2, THEN mp, OF H]
  obtain buf where
    a1: "main_loop ?sp Map.empty ready_state (key 10 # ?typed) =
          Inr (False, ready_state\<lparr>input_buffer := buf, edit_mode := True\<rparr>, [])" and
    a2: "ch (key 13) = 10 \<or> ch (key 13) = 13 \<longrightarrow>
          main_loop ?sp Map.empty ready_state (key 10 # ?typed @ [key 13]) =
            Inr (False,
                 ready_state\<lparr>input_buffer := buf,
                    env := (env ready_state)
                      (fst (fields_order ! nat (field_index ready_state)) \<mapsto> buf),
                    edit_mode := False\<rparr>, [])"
    by blast
  have a: "main_loop ?sp Map.empty ready_state (key 10 # ?typed @ [key 13]) =
       Inr (False,
            ready_state\<lparr>input_buffer := ''h'',
                         env := (env ready_state)(''DOWNLOAD_URL'' \<mapsto> ''h''),
                         edit_mode := False\<rparr>, [])"
    using a2 same [OF a1] by (simp add: ready_nav first_field del: main_loop.simps)
  from edit_commit_and_cancel [where st = ready_state and ?e0.0 = "key 10" and typed = ?typed
        and sp = ?sp and os = Map.empty and ?e1.0 = "key 27", THEN conjunct2, THEN mp, OF H]
  obtain buf' where
    b1: "main_loop ?sp Map.empty ready_state (key 10 # ?typed) =
          Inr (False, ready_state\<lparr>input_buffer := buf', edit_mode := True\<rparr>, [])" and
    b2: "ch (key 27) = 27 \<longrightarrow>
          main_loop ?sp Map.empty ready_state (key 10 # ?typed @ [key 27]) =
            Inr (False, ready_state\<lparr>input_buffer := buf', edit_mode := False\<rparr>, [])"
    by blast
  have b: "main_loop ?sp Map.empty ready_state (key 10 # ?typed @ [key 27]) =
       Inr (False, ready_state\<lparr>input_buffer := ''h'', edit_mode := False\<rparr>, [])"
    using b2 same [OF b1] by (simp del: main_loop.simps)
  have c: "handle_input ?ed (key 13) =
       Inr (None,
            ready_state\<lparr>input_buffer := ''h'',
                         env := (env ready_state)(''DOWNLOAD_URL'' \<mapsto> ''h''),
                         edit_mode := False\<rparr>)"
    using edit_commit_and_cancel [where st = ?ed and ev = "key 13"]
    by (simp add: ready_nav first_field)
  have d: "handle_input ?ed (key 27) =
       Inr (None, ready_state\<lparr>input_buffer := ''h'', edit_mode := False\<rparr>)"
    using edit_commit_and_cancel [where st = ?ed and ev = "key 27"]
    by (simp add: ready_nav first_field)
  show ?thesis using a b c d by (simp add: ready_nav del: main_loop.simps)
qed

subsection \<open>Left and right on fields and flags\<close>

lemma left_right_on_field:
  assumes "\<not> edit_mode st" "field_index st < 12" "ch ev = KEY_LEFT \<or> ch ev = KEY_RIGHT"
  shows "handle_input st ev = Inr (None, st)"
  using assms by (elim disjE) (simp_all add: handle_input_def key_defs)

lemma left_right_on_flag:
  assumes "\<not> edit_mode st" "12 \<le> field_index st" "field_index st < 22"
    and "flags st (fst (toggle_order ! nat (field_index st - 12))) = Some v"
    and "ch ev = KEY_LEFT \<or> ch ev = KEY_RIGHT"
  shows "handle_input st ev =
     Inr (None, st\<lparr>flags := (flags st)(fst (toggle_order ! nat (field_index st - 12)) \<mapsto> \<not> v)\<rparr>)"
  using assms
  by (elim disjE)
    (simp_all add: handle_input_def key_defs py_item_def and_then_def case_prod_beta
      toggle_flag_cases)

lemma left_right_twice:
  assumes "\<not> edit_mode st" "12 \<le> field_index st" "field_index st < 22"
    and "flags st (fst (toggle_order ! nat (field_index st - 12))) = Some v"
    and "ch ev = KEY_LEFT \<or> ch ev = KEY_RIGHT" "ch ev' = KEY_LEFT \<or> ch ev' = KEY_RIGHT"
  shows "and_then (handle_input st ev) (\<lambda>(a, st1). handle_input st1 ev') = Inr (None, st)"
proof -
  let ?k = "fst (toggle_order ! nat (field_index st - 12))"
  let ?st1 = "st\<lparr>flags := (flags st)(?k \<mapsto> \<not> v)\<rparr>"
  have 1: "handle_input st ev = Inr (None, ?st1)"
    by (rule left_right_on_flag [OF assms(1-5)])
  have "handle_input ?st1 ev' =
     Inr (None, ?st1\<lparr>flags := (flags ?st1)(fst (toggle_order ! nat (field_index ?st1 - 12)) \<mapsto> \<not> \<not> v)\<rparr>)"
    by (rule left_right_on_flag) (use assms in simp_all)
  moreover have "(flags st)(?k \<mapsto> v) = flags st"
    using assms(4) by (rule map_upd_triv)
  ultimately have "handle_input ?st1 ev' = Inr (None, st)" by simp
  then show ?thesis by (simp add: 1 and_then_def)
qed

subsection \<open>The key events that raise\<close>

text \<open>
  The states the main loop reaches from the initial one are well formed, and on a well
  formed state \<open>handle_input\<close> raises in two situations only: Enter on a flag item,
  and left or right on the Start action.
\<close>

lemma handle_input_navigating:
  assumes "\<not> edit_mode st"
  shows "handle_input st ev =
     (if ch ev = - 1 then Inr (None, st)
      else if ch ev = ord_t \<or> ch ev = ord_T then Inr (None, st\<lparr>theme_dark := \<not> theme_dark st\<rparr>)
      else if ch ev = ord_q \<or> ch ev = 27 then
        (if confirm_quit st ev then Inr (Some Quit, st) else Inr (None, st))
      else if ch ev = KEY_F5 \<or> ch ev = ord_s then
        (if falsy_get (env st) ''SERIAL_NUMBER'' then Inr (None, require_serial st ev)
         else Inr (Some Start, st))
      else if ch ev = KEY_UP \<or> ch ev = ord_k then
        Inr (None, st\<lparr>field_index := (field_index st - 1) mod 23\<rparr>)
      else if ch ev = KEY_DOWN \<or> ch ev = ord_j then
        Inr (None, st\<lparr>field_index := (field_index st + 1) mod 23\<rparr>)
      else if ch ev = KEY_LEFT \<or> ch ev = KEY_RIGHT then
        (if 12 \<le> field_index st then
           and_then (py_item toggle_order (field_index st - 12)) (\<lambda>(key, label).
             and_then (toggle_flag (flags st) key) (\<lambda>f. Inr (None, st\<lparr>flags := f\<rparr>)))
         else Inr (None, st))
      else if ch ev = KEY_ENTER \<or> ch ev = 10 \<or> ch ev = 13 then
        (if field_index st = 22 then
           (if falsy_get (env st) ''SERIAL_NUMBER'' then Inr (None, require_serial st ev)
            else Inr (Some Start, st))
         else
           and_then (py_item fields_order (field_index st)) (\<lambda>(key, label).
             Inr (None, st\<lparr>input_buffer := dict_get (env st) key [], edit_mode := True\<rparr>)))
      else Inr (None, st))"
  using assms by (simp add: handle_input_def Let_def)

lemma py_item_toggle:
  assumes "12 \<le> i" "i < 22"
  shows "py_item toggle_order (i - 12) = Inr (toggle_order ! nat (i - 12))"
  using assms by (simp add: py_item_def)

lemma handle_input_raises_iff_aux:
  assumes "0 \<le> field_index st" "field_index st < 23"
    and "edit_mode st \<Longrightarrow> field_index st < 12"
    and "\<And>i. i < 10 \<Longrightarrow> flags st (fst (toggle_order ! i)) \<noteq> None"
  shows "(\<exists>e. handle_input st ev = Inl e) \<longleftrightarrow>
     \<not> edit_mode st \<and>
     ((ch ev = KEY_ENTER \<or> ch ev = 10 \<or> ch ev = 13) \<and> 12 \<le> field_index st \<and> field_index st < 22
      \<or> (ch ev = KEY_LEFT \<or> ch ev = KEY_RIGHT) \<and> field_index st = 22)"
proof (cases "edit_mode st")
  case True
  then have "field_index st < 12" by (rule assms(3))
  then have "\<not> (\<exists>e. handle_input st ev = Inl e)"
    using True assms(1)
    by (simp add: handle_input_editing py_item_field and_then_def case_prod_beta)
  then show ?thesis using True by simp
next
  case False
  have tog: "\<exists>f. toggle_flag (flags st) (fst (toggle_order ! nat (field_index st - 12))) = Inr f"
    if "12 \<le> field_index st" "field_index st < 22"
  proof -
    from that have "nat (field_index st - 12) < 10" by simp
    from assms(4) [OF this] show ?thesis
      by (auto simp add: toggle_flag_cases split: option.splits)
  qed
  have lr: "(\<exists>e. and_then (py_item toggle_order (field_index st - 12)) (\<lambda>(key, label).
             and_then (toggle_flag (flags st) key) (\<lambda>f. Inr (None, st\<lparr>flags := f\<rparr>))) = Inl e)
         \<longleftrightarrow> field_index st = 22" if "12 \<le> field_index st"
  proof (cases "field_index st < 22")
    case True
    from tog [OF that True] obtain f where
      "toggle_flag (flags st) (fst (toggle_order ! nat (field_index st - 12))) = Inr f" by blast
    then show ?thesis using True that
      by (simp add: py_item_toggle and_then_def case_prod_beta)
  next
    case False
    then have "field_index st = 22" using assms(2) by simp
    then show ?thesis by (simp add: py_item_def and_then_def)
  qed
  have en: "(\<exists>e. and_then (py_item fields_order (field_index st)) (\<lambda>(key, label).
             Inr (None, st\<lparr>input_buffer := dict_get (env st) key [], edit_mode := True\<rparr>)) = Inl e)
         \<longleftrightarrow> 12 \<le> field_index st"
    using assms(1,2) by (simp add: py_item_def and_then_def case_prod_beta)
  show ?thesis
    unfolding handle_input_navigating [OF False]
    using False lr en assms(2) by (auto simp add: key_defs)
qed


lemma handle_input_raises_iff:
  assumes "well_formed st"
  shows "(\<exists>e. handle_input st ev = Inl e) \<longleftrightarrow>
     \<not> edit_mode st \<and>
     ((ch ev = KEY_ENTER \<or> ch ev = 10 \<or> ch ev = 13) \<and> 12 \<le> field_index st \<and> field_index st < 22
      \<or> (ch ev = KEY_LEFT \<or> ch ev = KEY_RIGHT) \<and> field_index st = 22)"
proof (rule handle_input_raises_iff_aux)
  show "0 \<le> field_index st" "field_index st < 23"
    using assms by (simp_all add: well_formed_def)
  show "edit_mode st \<Longrightarrow> field_index st < 12"
    using assms by (simp add: well_formed_def)
  show "flags st (fst (toggle_order ! i)) \<noteq> None" if "i < 10" for i
  proof -
    from that have "toggle_order ! i \<in> set toggle_order" by simp
    then show ?thesis using assms by (simp add: well_formed_def)
  qed
qed

lemma well_formed_init: "well_formed (UIState_init os serial url)"
  by (auto simp add: well_formed_def toggle_order_def initial_flags_def)

lemma handle_input_flags:
  assumes "handle_input st ev = Inr (a, st1)" "flags st k \<noteq> None"
  shows "flags st1 k \<noteq> None"
proof (cases "edit_mode st")
  case True
  then show ?thesis using assms
    by (auto simp add: handle_input_editing and_then_def case_prod_beta
        split: if_splits sum.splits)
next
  case False
  then show ?thesis using assms
    by (auto simp add: handle_input_navigating and_then_def case_prod_beta require_serial_eq
        toggle_flag_cases split: if_splits sum.splits option.splits)
qed

lemma handle_input_selection:
  assumes "handle_input st ev = Inr (a, st1)" "0 \<le> field_index st" "field_index st < 23"
    and "edit_mode st \<longrightarrow> field_index st < 12"
  shows "0 \<le> field_index st1 \<and> field_index st1 < 23 \<and> (edit_mode st1 \<longrightarrow> field_index st1 < 12)"
proof (cases "edit_mode st")
  case True
  then show ?thesis using assms
    by (auto simp add: handle_input_editing and_then_def case_prod_beta
        split: if_splits sum.splits)
next
  case False
  have en: "field_index st < 12" if "py_item fields_order (field_index st) = Inr p" for p
    using that assms(2) by (simp add: py_item_def split: if_splits)
  show ?thesis using assms False en
    by (auto simp add: handle_input_navigating and_then_def case_prod_beta require_serial_eq
        split: if_splits sum.splits)
qed

lemma well_formed_handle_input:
  assumes "well_formed st" "handle_input st ev = Inr (a, st1)"
  shows "well_formed st1"
  using assms(1) handle_input_flags [OF assms(2)] handle_input_selection [OF assms(2)]
  by (simp add: well_formed_def)


lemma well_formed_start_job:
  assumes "well_formed st" "start_job sp os ts st = Inr (st1, j)"
  shows "well_formed st1"
  using assms
  by (auto simp add: start_job_def and_then_def log_def set_mode_def well_formed_def
      split: if_splits sum.splits)

lemma well_formed_main_step:
  assumes "well_formed st" "main_step sp os st ev = Inr (q, st1, j)"
  shows "well_formed st1"
proof -
  from assms(2) obtain a st0 where h: "handle_input st ev = Inr (a, st0)"
    by (auto simp add: main_step_def and_then_def split: sum.splits)
  have w: "well_formed st0" by (rule well_formed_handle_input [OF assms(1) h])
  show ?thesis
    using assms(2) w well_formed_start_job [OF w]
    by (auto simp add: main_step_def h and_then_def split: if_splits sum.splits)
qed

lemma well_formed_main_loop:
  assumes "well_formed st" "main_loop sp os st evs = Inr (q, st1, js)"
  shows "well_formed st1"
  using assms
proof (induction evs arbitrary: st q st1 js)
  case Nil
  then show ?case by simp
next
  case (Cons ev evs)
  from Cons.prems(2) obtain q0 st0 j0 where s: "main_step sp os st ev = Inr (q0, st0, j0)"
    by (auto simp add: and_then_def split: sum.splits)
  have w: "well_formed st0" by (rule well_formed_main_step [OF Cons.prems(1) s])
  show ?case
  proof (cases q0)
    case True
    then show ?thesis using Cons.prems(2) s w by (simp add: and_then_def)
  next
    case False
    from Cons.prems(2) s False obtain q2 st2 js2 where
      l: "main_loop sp os st0 evs = Inr (q2, st2, js2)"
      by (auto simp add: and_then_def split: sum.splits)
    from Cons.IH [OF w l] have "well_formed st2" .
    then show ?thesis using Cons.prems(2) s False l by (simp add: and_then_def)
  qed
qed

end
